theory Spec2Isabelle
  imports Complex_Main "HOL-Library.Multiset"
begin

section \<open>Python values and exceptions\<close>

text \<open>
  The two scripts \<^verbatim>\<open>seller.py\<close> (Ozon) and \<^verbatim>\<open>market.py\<close> (Yandex Market) are embedded
  function by function. A Python \<^verbatim>\<open>str\<close> is a \<^typ>\<open>string\<close>: the bytes of its
  UTF-8 encoding, in which every byte of a character outside ASCII is at least 128 and
  so is never an ASCII digit or a dot. An exception is a value of
  \<open>py_error\<close>, and a function that can raise returns \<open>py_error + 'a\<close>.
\<close>

datatype value_error =
    InvalidLiteral string  \<comment> \<open>\<^verbatim>\<open>int(s)\<close>: invalid literal for int() with base 10\<close>
  | DigitLimit nat         \<comment> \<open>\<^verbatim>\<open>int(s)\<close>: exceeds the limit for integer string conversion\<close>
  | NotInList string       \<comment> \<open>\<^verbatim>\<open>list.remove(x)\<close>: x not in list\<close>
  | ZeroStep               \<comment> \<open>\<^verbatim>\<open>range()\<close> arg 3 must not be zero\<close>

datatype py_error =
    ValueError value_error
  | HTTPError nat          \<comment> \<open>\<^verbatim>\<open>response.raise_for_status()\<close> with the status code\<close>

subsection \<open>\<^verbatim>\<open>int(s)\<close> on a string\<close>

text \<open>The digits \<^verbatim>\<open>0-9\<close> of the regular expression in \<^verbatim>\<open>price_conversion\<close>.\<close>

definition is_digit :: "char \<Rightarrow> bool" where
  "is_digit c = (c \<in> set ''0123456789'')"

text \<open>
  \<^verbatim>\<open>int\<close> reads code points, so the bytes of the string are decoded first. The bytes
  of a Python \<^verbatim>\<open>str\<close> always decode; a byte sequence that is no UTF-8 has the value
  \<open>None\<close>.
\<close>

definition is_cont :: "nat \<Rightarrow> bool" where
  "is_cont b = (0x80 \<le> b \<and> b < 0xC0)"

fun utf8_decode :: "nat list \<Rightarrow> nat list option" where
  "utf8_decode [] = Some []"
| "utf8_decode (b # bs) =
     (if b < 0x80 then map_option ((#) b) (utf8_decode bs)
      else if b < 0xE0 then
        (case bs of
           [] \<Rightarrow> None
         | b1 # r \<Rightarrow>
             if 0xC2 \<le> b \<and> is_cont b1
             then map_option ((#) ((b - 0xC0) * 0x40 + (b1 - 0x80))) (utf8_decode r)
             else None)
      else if b < 0xF0 then
        (case bs of
           b1 # b2 # r \<Rightarrow>
             if is_cont b1 \<and> is_cont b2
             then map_option
                    ((#) ((b - 0xE0) * 0x1000 + (b1 - 0x80) * 0x40 + (b2 - 0x80)))
                    (utf8_decode r)
             else None
         | _ \<Rightarrow> None)
      else if b < 0xF8 then
        (case bs of
           b1 # b2 # b3 # r \<Rightarrow>
             if is_cont b1 \<and> is_cont b2 \<and> is_cont b3
             then map_option
                    ((#) ((b - 0xF0) * 0x40000 + (b1 - 0x80) * 0x1000 + (b2 - 0x80) * 0x40
                          + (b3 - 0x80)))
                    (utf8_decode r)
             else None
         | _ \<Rightarrow> None)
      else None)"

text \<open>
  The blanks beyond ASCII, and the decimal digits beyond ASCII: each number of
  \<open>decimal_zeros\<close> is the code point of a digit zero, followed by the digits one to
  nine of its script (the character database of CPython 3.11, Unicode 14).
\<close>

definition unicode_space :: "nat \<Rightarrow> bool" where
  "unicode_space c =
     (c \<in> set [0x85, 0xA0, 0x1680, 0x2028, 0x2029, 0x202F, 0x205F, 0x3000]
      \<or> (0x2000 \<le> c \<and> c \<le> 0x200A))"

definition decimal_zeros :: "nat list" where
  "decimal_zeros =
     [1632, 1776, 1984, 2406, 2534, 2662, 2790, 2918, 3046, 3174, 3302, 3430, 3558,
      3664, 3792, 3872, 4160, 4240, 6112, 6160, 6470, 6608, 6784, 6800, 6992, 7088,
      7232, 7248, 42528, 43216, 43264, 43472, 43504, 43600, 44016, 65296, 66720, 68912,
      69734, 69872, 69942, 70096, 70384, 70736, 70864, 71248, 71360, 71472, 71904,
      72016, 72784, 73040, 73120, 92768, 92864, 93008, 120782, 120792, 120802, 120812,
      120822, 123200, 123632, 125264, 130032]"

definition unicode_decimal :: "nat \<Rightarrow> nat option" where
  "unicode_decimal c =
     (case filter (\<lambda>z. z \<le> c \<and> c < z + 10) decimal_zeros of
        [] \<Rightarrow> None
      | z # _ \<Rightarrow> Some (c - z))"

text \<open>
  Before it parses, \<^verbatim>\<open>int\<close> turns every blank beyond ASCII into a space, every decimal
  digit beyond ASCII into its ASCII digit, and any other character beyond ASCII into a
  question mark, at which the parse fails.
\<close>

definition to_ascii :: "nat \<Rightarrow> nat" where
  "to_ascii c =
     (if c < 127 then c
      else if unicode_space c then 32
      else (case unicode_decimal c of Some d \<Rightarrow> 48 + d | None \<Rightarrow> 63))"

definition ascii_space :: "nat \<Rightarrow> bool" where
  "ascii_space c = (c = 32 \<or> (9 \<le> c \<and> c \<le> 13))"

definition ascii_digit :: "nat \<Rightarrow> bool" where
  "ascii_digit c = (48 \<le> c \<and> c \<le> 57)"

definition digit_or_underscore :: "nat \<Rightarrow> bool" where
  "digit_or_underscore c = (ascii_digit c \<or> c = 95)"

text \<open>
  The run of digits and underscores: it starts and ends with a digit, and no two
  underscores stand side by side.
\<close>

fun single_underscores :: "nat list \<Rightarrow> bool" where
  "single_underscores (a # b # cs) = (\<not> (a = 95 \<and> b = 95) \<and> single_underscores (b # cs))"
| "single_underscores cs = True"

definition valid_run :: "nat list \<Rightarrow> bool" where
  "valid_run run = (run \<noteq> [] \<and> hd run \<noteq> 95 \<and> last run \<noteq> 95 \<and> single_underscores run)"

definition digits_value :: "nat list \<Rightarrow> nat" where
  "digits_value ds = foldl (\<lambda>a c. 10 * a + (c - 48)) 0 ds"

text \<open>The interpreter's default limit on the digits of a string that \<^verbatim>\<open>int\<close> converts.\<close>

definition int_max_str_digits :: nat where
  "int_max_str_digits = 4300"

definition strip_sign :: "nat list \<Rightarrow> bool \<times> nat list" where
  "strip_sign t =
     (case t of
        [] \<Rightarrow> (False, [])
      | c # r \<Rightarrow> if c = 43 then (False, r) else if c = 45 then (True, r) else (False, t))"

text \<open>
  The parse in base 10 of the ASCII text \<open>t\<close> made from the string \<open>s\<close>: blanks, an
  optional sign, the run of digits, blanks, and nothing more. The run is checked
  first, then the number of its digits against the limit, then what follows the run.
\<close>

definition long_from_string :: "string \<Rightarrow> nat list \<Rightarrow> py_error + int" where
  "long_from_string s t =
     (case strip_sign (dropWhile ascii_space t) of
        (negative, u) \<Rightarrow>
          if \<not> valid_run (takeWhile digit_or_underscore u)
          then Inl (ValueError (InvalidLiteral s))
          else if int_max_str_digits
                    < length (filter ascii_digit (takeWhile digit_or_underscore u))
          then Inl (ValueError
                 (DigitLimit (length (filter ascii_digit (takeWhile digit_or_underscore u)))))
          else if dropWhile ascii_space (dropWhile digit_or_underscore u) \<noteq> []
          then Inl (ValueError (InvalidLiteral s))
          else if negative
          then Inr (- int (digits_value (filter ascii_digit (takeWhile digit_or_underscore u))))
          else Inr (int (digits_value (filter ascii_digit (takeWhile digit_or_underscore u)))))"

text \<open>
  \<^verbatim>\<open>int(s)\<close> for a string \<open>s\<close>, as CPython 3.11 computes it with its default settings.
  Both of its errors are a \<^verbatim>\<open>ValueError\<close>.
\<close>

definition py_int :: "string \<Rightarrow> py_error + int" where
  "py_int s =
     (case utf8_decode (map of_char s) of
        None \<Rightarrow> Inl (ValueError (InvalidLiteral s))
      | Some cps \<Rightarrow> long_from_string s (map to_ascii cps))"

section \<open>The price converter\<close>

text \<open>\<^verbatim>\<open>s.split(sep)\<close> for a separator of one character: never an empty list.\<close>

fun py_split :: "char \<Rightarrow> string \<Rightarrow> string list" where
  "py_split sep [] = [[]]"
| "py_split sep (c # cs) =
     (if c = sep then [] # py_split sep cs
      else (case py_split sep cs of
              [] \<Rightarrow> [[c]]
            | p # ps \<Rightarrow> (c # p) # ps))"

text \<open>\<^verbatim>\<open>re.sub("[^0-9]", "", s)\<close>: every character outside \<^verbatim>\<open>0-9\<close> is deleted.\<close>

definition re_sub_non_digits :: "string \<Rightarrow> string" where
  "re_sub_non_digits s = filter is_digit s"

text \<open>
  \<^verbatim>\<open>return re.sub("[^0-9]", "", price.split(".")[0])\<close>.
  Element 0 of the split exists, since the split is never empty.
\<close>

definition price_conversion :: "string \<Rightarrow> string" where
  "price_conversion price = re_sub_non_digits (hd (py_split (CHR ''.'') price))"

text \<open>The specification's wording: the substring before the first dot.\<close>

definition before_first_dot :: "string \<Rightarrow> string" where
  "before_first_dot s = takeWhile (\<lambda>c. c \<noteq> CHR ''.'') s"

text \<open>The price \<^verbatim>\<open>5'990.00\<close> followed by a blank, the Cyrillic unit and a dot.\<close>

definition example_price :: string where
  "example_price =
     [CHR ''5'', CHR 0x27] @ ''990.00 '' @
     [CHR 0xD1, CHR 0x80, CHR 0xD1, CHR 0x83, CHR 0xD0, CHR 0xB1] @ ''.''"

section \<open>The batch splitter\<close>

text \<open>\<^verbatim>\<open>range(start, stop, step)\<close>, listed; a step of zero raises \<^verbatim>\<open>ValueError\<close>.\<close>

function range_up :: "int \<Rightarrow> int \<Rightarrow> int \<Rightarrow> int list" where
  "range_up i stop step =
     (if 0 < step \<and> i < stop then i # range_up (i + step) stop step else [])"
  by pat_completeness auto
termination
  by (relation "measure (\<lambda>(i, stop, step). nat (stop - i))") auto

function range_down :: "int \<Rightarrow> int \<Rightarrow> int \<Rightarrow> int list" where
  "range_down i stop step =
     (if step < 0 \<and> stop < i then i # range_down (i + step) stop step else [])"
  by pat_completeness auto
termination
  by (relation "measure (\<lambda>(i, stop, step). nat (i - stop))") auto

definition py_range :: "int \<Rightarrow> int \<Rightarrow> int \<Rightarrow> py_error + int list" where
  "py_range start stop step =
     (if step = 0 then Inl (ValueError ZeroStep)
      else if 0 < step then Inr (range_up start stop step)
      else Inr (range_down start stop step))"

text \<open>
  The slice \<^verbatim>\<open>lst[i:j]\<close>: a negative index counts from the end, and both ends are
  clamped to the list.
\<close>

definition py_slice :: "'a list \<Rightarrow> int \<Rightarrow> int \<Rightarrow> 'a list" where
  "py_slice lst i j =
     (let n = int (length lst);
          a = (if i < 0 then max 0 (n + i) else min i n);
          b = (if j < 0 then max 0 (n + j) else min j n)
      in take (nat (b - a)) (drop (nat a) lst))"

text \<open>
  \<^verbatim>\<open>for i in range(0, len(lst), n): yield lst[i : i + n]\<close>. Every caller consumes the
  generator at once with \<^verbatim>\<open>list(divide(...))\<close>; the model is that list.
\<close>

definition divide :: "'a list \<Rightarrow> int \<Rightarrow> py_error + 'a list list" where
  "divide lst n =
     (case py_range 0 (int (length lst)) n of
        Inl e \<Rightarrow> Inl e
      | Inr idx \<Rightarrow> Inr (map (\<lambda>i. py_slice lst i (i + n)) idx))"

section \<open>The offer resolver\<close>

text \<open>
  \<^verbatim>\<open>get_product_list\<close> is one HTTP request. The marketplace is a parameter: the answer
  to the request number \<open>k\<close> made with a given page cursor, either an HTTP error status
  or the decoded \<^verbatim>\<open>result\<close> object.
\<close>

type_synonym 'p provider = "nat \<Rightarrow> string \<Rightarrow> py_error + 'p"

text \<open>
  A page of the Ozon listing: its \<^verbatim>\<open>items\<close>, each with an \<^verbatim>\<open>offer_id\<close> (here
  \<open>product_offer_id\<close>), its \<^verbatim>\<open>total\<close> (here \<open>total_p\<close>) and its \<^verbatim>\<open>last_id\<close>.
\<close>

record ozon_product =
  product_offer_id :: string

record ozon_page =
  items :: "ozon_product list"
  total_p :: int
  last_id :: string

text \<open>
  The \<^verbatim>\<open>while True\<close> loop of \<^verbatim>\<open>seller.get_offer_ids\<close>. It leaves only when the declared
  total equals the number of products gathered so far; a loop that runs forever has the
  value \<open>None\<close>.
\<close>

partial_function (option) get_offer_ids_loop ::
  "ozon_page provider \<Rightarrow> nat \<Rightarrow> string \<Rightarrow> ozon_product list
     \<Rightarrow> (py_error + ozon_product list) option" where
  "get_offer_ids_loop prov k cursor product_list =
     (case prov k cursor of
        Inl e \<Rightarrow> Some (Inl e)
      | Inr some_prod \<Rightarrow>
          if total_p some_prod = int (length (product_list @ items some_prod))
          then Some (Inr (product_list @ items some_prod))
          else get_offer_ids_loop prov (Suc k) (last_id some_prod)
                 (product_list @ items some_prod))"

definition get_offer_ids :: "ozon_page provider \<Rightarrow> (py_error + string list) option" where
  "get_offer_ids prov =
     (case get_offer_ids_loop prov 0 [] [] of
        None \<Rightarrow> None
      | Some (Inl e) \<Rightarrow> Some (Inl e)
      | Some (Inr product_list) \<Rightarrow> Some (Inr (map product_offer_id product_list)))"

record market_entry =
  shopSku :: string

record market_page =
  offerMappingEntries :: "market_entry list"
  nextPageToken :: "string option"

text \<open>
  The loop of \<^verbatim>\<open>market.get_offer_ids\<close>. \<^verbatim>\<open>not page\<close> holds for an absent token
  (\<open>None\<close>) and for the empty string.
\<close>

partial_function (option) market_get_offer_ids_loop ::
  "market_page provider \<Rightarrow> nat \<Rightarrow> string \<Rightarrow> market_entry list
     \<Rightarrow> (py_error + market_entry list) option" where
  "market_get_offer_ids_loop prov k page product_list =
     (case prov k page of
        Inl e \<Rightarrow> Some (Inl e)
      | Inr some_prod \<Rightarrow>
          (case nextPageToken some_prod of
             None \<Rightarrow> Some (Inr (product_list @ offerMappingEntries some_prod))
           | Some t \<Rightarrow>
               if t = [] then Some (Inr (product_list @ offerMappingEntries some_prod))
               else market_get_offer_ids_loop prov (Suc k) t
                      (product_list @ offerMappingEntries some_prod)))"

definition market_get_offer_ids ::
  "market_page provider \<Rightarrow> (py_error + string list) option" where
  "market_get_offer_ids prov =
     (case market_get_offer_ids_loop prov 0 [] [] of
        None \<Rightarrow> None
      | Some (Inl e) \<Rightarrow> Some (Inl e)
      | Some (Inr product_list) \<Rightarrow> Some (Inr (map shopSku product_list)))"

subsection \<open>Runs of page requests\<close>

text \<open>
  The provider answers the requests number \<open>k\<close>, \<open>k + 1\<close>, ... with the pages \<open>ps\<close> in
  this order, when the first of them carries \<open>cursor\<close> and every later one the cursor
  that the page before it names.
\<close>

fun serves :: "'p provider \<Rightarrow> ('p \<Rightarrow> string) \<Rightarrow> nat \<Rightarrow> string \<Rightarrow> 'p list \<Rightarrow> bool" where
  "serves prov next_cursor k cursor [] = True"
| "serves prov next_cursor k cursor (p # ps) =
     (prov k cursor = Inr p \<and> serves prov next_cursor (Suc k) (next_cursor p) ps)"

text \<open>
  With \<open>n\<close> products gathered before them, no page of \<open>ps\<close> brings the number gathered
  to the total that the page declares.
\<close>

fun short_of_total :: "nat \<Rightarrow> ozon_page list \<Rightarrow> bool" where
  "short_of_total n [] = True"
| "short_of_total n (p # ps) =
     (total_p p \<noteq> int (n + length (items p)) \<and> short_of_total (n + length (items p)) ps)"

text \<open>The page names a next page: its token is present and not empty.\<close>

definition has_next :: "market_page \<Rightarrow> bool" where
  "has_next p = (case nextPageToken p of None \<Rightarrow> False | Some t \<Rightarrow> t \<noteq> [])"

definition next_token :: "market_page \<Rightarrow> string" where
  "next_token p = (case nextPageToken p of None \<Rightarrow> [] | Some t \<Rightarrow> t)"

section \<open>The stock and price builders\<close>

text \<open>
  A supplier record with the three columns that the builders read: code, quantity and
  price. The source's keys are Cyrillic and are transliterated here. Each value is a
  string, as in the data model and in the signature of \<^verbatim>\<open>price_conversion\<close>; \<^verbatim>\<open>str\<close> of
  a string is the string itself. The dictionaries that the builders return are records
  with the source's keys; \<open>price_offer_id\<close> is the key \<^verbatim>\<open>offer_id\<close> of a price.
\<close>

record watch =
  Kod :: string
  Kolichestvo :: string
  Tsena :: string

record stock_item =
  offer_id :: string
  stock :: int

record price_item =
  auto_action_enabled :: string
  currency_code :: string
  price_offer_id :: string
  old_price :: string
  price :: string

text \<open>\<^verbatim>\<open>lst.remove(x)\<close> deletes the first occurrence and raises when there is none.\<close>

definition list_remove :: "string \<Rightarrow> string list \<Rightarrow> py_error + string list" where
  "list_remove x xs =
     (if x \<in> set xs then Inr (remove1 x xs) else Inl (ValueError (NotInList x)))"

text \<open>The stock policy of both \<^verbatim>\<open>create_stocks\<close> functions.\<close>

definition stock_count :: "string \<Rightarrow> py_error + int" where
  "stock_count quantity =
     (if quantity = ''>10'' then Inr 100
      else if quantity = ''1'' then Inr 0
      else py_int quantity)"

text \<open>
  The first loop of \<^verbatim>\<open>seller.create_stocks\<close>. The caller's list \<^verbatim>\<open>offer_ids\<close> is
  changed in place, so the loop returns it next to its result, also when it raises.
\<close>

fun create_stocks_loop ::
  "watch list \<Rightarrow> string list \<Rightarrow> stock_item list \<Rightarrow> (py_error + stock_item list) \<times> string list" where
  "create_stocks_loop [] offer_ids stocks = (Inr stocks, offer_ids)"
| "create_stocks_loop (w # ws) offer_ids stocks =
     (if Kod w \<in> set offer_ids then
        (case stock_count (Kolichestvo w) of
           Inl e \<Rightarrow> (Inl e, offer_ids)
         | Inr c \<Rightarrow>
             (case list_remove (Kod w) offer_ids of
                Inl e \<Rightarrow> (Inl e, offer_ids)
              | Inr offer_ids' \<Rightarrow>
                  create_stocks_loop ws offer_ids'
                    (stocks @ [\<lparr>offer_id = Kod w, stock = c\<rparr>])))
      else create_stocks_loop ws offer_ids stocks)"

definition create_stocks ::
  "watch list \<Rightarrow> string list \<Rightarrow> (py_error + stock_item list) \<times> string list" where
  "create_stocks watch_remnants offer_ids =
     (case create_stocks_loop watch_remnants offer_ids [] of
        (Inl e, offer_ids') \<Rightarrow> (Inl e, offer_ids')
      | (Inr stocks, offer_ids') \<Rightarrow>
          (Inr (stocks @ map (\<lambda>i. \<lparr>offer_id = i, stock = 0\<rparr>) offer_ids'), offer_ids'))"

text \<open>
  \<^verbatim>\<open>seller.create_prices\<close>; the list of offer ids is threaded through the loop as well,
  to show what becomes of it.
\<close>

fun create_prices_loop ::
  "watch list \<Rightarrow> string list \<Rightarrow> price_item list \<Rightarrow> price_item list \<times> string list" where
  "create_prices_loop [] offer_ids prices = (prices, offer_ids)"
| "create_prices_loop (w # ws) offer_ids prices =
     (if Kod w \<in> set offer_ids then
        create_prices_loop ws offer_ids
          (prices @ [\<lparr>auto_action_enabled = ''UNKNOWN'', currency_code = ''RUB'',
                      price_offer_id = Kod w, old_price = ''0'',
                      price = price_conversion (Tsena w)\<rparr>])
      else create_prices_loop ws offer_ids prices)"

definition create_prices :: "watch list \<Rightarrow> string list \<Rightarrow> price_item list \<times> string list" where
  "create_prices watch_remnants offer_ids = create_prices_loop watch_remnants offer_ids []"

subsection \<open>The Yandex Market variant\<close>

text \<open>
  The Market payloads. The keys \<^verbatim>\<open>count\<close>, \<^verbatim>\<open>type\<close>, \<^verbatim>\<open>items\<close>, \<^verbatim>\<open>value\<close>, \<^verbatim>\<open>id\<close> and
  \<^verbatim>\<open>price\<close> are the fields \<open>item_count\<close>, \<open>item_type\<close>, \<open>stock_items\<close>, \<open>price_value\<close>,
  \<open>price_id\<close> and \<open>price_m\<close>.
\<close>

record market_count =
  item_count :: int
  item_type :: string
  updatedAt :: string

record market_stock =
  sku :: string
  warehouseId :: string
  stock_items :: "market_count list"

record market_value =
  price_value :: int
  currencyId :: string

record market_price =
  price_id :: string
  price_m :: market_value

text \<open>
  \<^verbatim>\<open>market.create_stocks\<close>. The time stamp \<^verbatim>\<open>date\<close> is read from the clock once, before
  the loop; it is a parameter here.
\<close>

definition market_stock_of :: "string \<Rightarrow> string \<Rightarrow> string \<Rightarrow> int \<Rightarrow> market_stock" where
  "market_stock_of warehouse_id date code c =
     \<lparr>sku = code, warehouseId = warehouse_id,
      stock_items = [\<lparr>item_count = c, item_type = ''FIT'', updatedAt = date\<rparr>]\<rparr>"

fun market_create_stocks_loop ::
  "string \<Rightarrow> string \<Rightarrow> watch list \<Rightarrow> string list \<Rightarrow> market_stock list
     \<Rightarrow> (py_error + market_stock list) \<times> string list" where
  "market_create_stocks_loop warehouse_id date [] offer_ids stocks = (Inr stocks, offer_ids)"
| "market_create_stocks_loop warehouse_id date (w # ws) offer_ids stocks =
     (if Kod w \<in> set offer_ids then
        (case stock_count (Kolichestvo w) of
           Inl e \<Rightarrow> (Inl e, offer_ids)
         | Inr c \<Rightarrow>
             (case list_remove (Kod w) offer_ids of
                Inl e \<Rightarrow> (Inl e, offer_ids)
              | Inr offer_ids' \<Rightarrow>
                  market_create_stocks_loop warehouse_id date ws offer_ids'
                    (stocks @ [market_stock_of warehouse_id date (Kod w) c])))
      else market_create_stocks_loop warehouse_id date ws offer_ids stocks)"

definition market_create_stocks ::
  "watch list \<Rightarrow> string list \<Rightarrow> string \<Rightarrow> string
     \<Rightarrow> (py_error + market_stock list) \<times> string list" where
  "market_create_stocks watch_remnants offer_ids warehouse_id date =
     (case market_create_stocks_loop warehouse_id date watch_remnants offer_ids [] of
        (Inl e, offer_ids') \<Rightarrow> (Inl e, offer_ids')
      | (Inr stocks, offer_ids') \<Rightarrow>
          (Inr (stocks @ map (\<lambda>i. market_stock_of warehouse_id date i 0) offer_ids'),
           offer_ids'))"

text \<open>\<^verbatim>\<open>market.create_prices\<close>: the converted price goes through \<^verbatim>\<open>int\<close>.\<close>

fun market_create_prices_loop ::
  "watch list \<Rightarrow> string list \<Rightarrow> market_price list
     \<Rightarrow> (py_error + market_price list) \<times> string list" where
  "market_create_prices_loop [] offer_ids prices = (Inr prices, offer_ids)"
| "market_create_prices_loop (w # ws) offer_ids prices =
     (if Kod w \<in> set offer_ids then
        (case py_int (price_conversion (Tsena w)) of
           Inl e \<Rightarrow> (Inl e, offer_ids)
         | Inr v \<Rightarrow>
             market_create_prices_loop ws offer_ids
               (prices @ [\<lparr>price_id = Kod w,
                           price_m = \<lparr>price_value = v, currencyId = ''RUR''\<rparr>\<rparr>]))
      else market_create_prices_loop ws offer_ids prices)"

definition market_create_prices ::
  "watch list \<Rightarrow> string list \<Rightarrow> (py_error + market_price list) \<times> string list" where
  "market_create_prices watch_remnants offer_ids =
     market_create_prices_loop watch_remnants offer_ids []"

section \<open>The orchestrator\<close>

text \<open>
  The body of \<^verbatim>\<open>seller.main\<close> after the offer ids are resolved and the supplier file is
  read: the stock pass, its batches of 100, then the price pass on the same list object
  \<^verbatim>\<open>offer_ids\<close>, and its batches of 900. The result is the batches handed to
  \<^verbatim>\<open>update_stocks\<close> and \<^verbatim>\<open>update_price\<close> when every request succeeds.
\<close>

definition main_body ::
  "watch list \<Rightarrow> string list \<Rightarrow> py_error + (stock_item list list \<times> price_item list list)" where
  "main_body watch_remnants offer_ids =
     (case create_stocks watch_remnants offer_ids of
        (Inl e, offer_ids') \<Rightarrow> Inl e
      | (Inr stocks, offer_ids') \<Rightarrow>
          (case divide stocks 100 of
             Inl e \<Rightarrow> Inl e
           | Inr stock_batches \<Rightarrow>
               (case create_prices watch_remnants offer_ids' of
                  (prices, offer_ids'') \<Rightarrow>
                    (case divide prices 900 of
                       Inl e \<Rightarrow> Inl e
                     | Inr price_batches \<Rightarrow> Inr (stock_batches, price_batches)))))"

text \<open>
  The body of the coroutine \<^verbatim>\<open>seller.upload_prices\<close>: it resolves the offer ids itself
  and builds the prices from that fresh list; its result is the list \<^verbatim>\<open>prices\<close>.
\<close>

definition upload_prices ::
  "watch list \<Rightarrow> ozon_page provider \<Rightarrow> (py_error + price_item list) option" where
  "upload_prices watch_remnants prov =
     (case get_offer_ids prov of
        None \<Rightarrow> None
      | Some (Inl e) \<Rightarrow> Some (Inl e)
      | Some (Inr offer_ids) \<Rightarrow>
          (case create_prices watch_remnants offer_ids of
             (prices, offer_ids') \<Rightarrow>
               (case divide prices 1000 of
                  Inl e \<Rightarrow> Some (Inl e)
                | Inr batches \<Rightarrow> Some (Inr prices))))"

subsection \<open>Two calls in a row\<close>

text \<open>
  The statements \<^verbatim>\<open>a = f(watch_remnants, offer_ids); b = f(watch_remnants, offer_ids)\<close>:
  the second call receives the list object as the first call has left it. The result
  is the two values returned and the list after the second call.
\<close>

definition twice :: "('w \<Rightarrow> 's \<Rightarrow> 'r \<times> 's) \<Rightarrow> 'w \<Rightarrow> 's \<Rightarrow> ('r \<times> 'r) \<times> 's" where
  "twice f watch_remnants offer_ids =
     (case f watch_remnants offer_ids of
        (a, offer_ids') \<Rightarrow>
          (case f watch_remnants offer_ids' of
             (b, offer_ids'') \<Rightarrow> ((a, b), offer_ids'')))"

section \<open>Simplifier setup\<close>

declare range_up.simps [simp del] range_down.simps [simp del]

text \<open>The definitions that evaluate \<open>py_int\<close> on a given string.\<close>

lemmas py_int_eval = py_int_def long_from_string_def strip_sign_def valid_run_def
  digits_value_def int_max_str_digits_def to_ascii_def ascii_space_def ascii_digit_def
  digit_or_underscore_def unicode_space_def unicode_decimal_def decimal_zeros_def is_cont_def

section \<open>Properties of the price converter\<close>

lemma py_split_not_Nil: "py_split sep s \<noteq> []"
  by (induction s) (auto split: list.splits)

lemma hd_py_split: "hd (py_split sep s) = takeWhile (\<lambda>c. c \<noteq> sep) s"
proof (induction s)
  case Nil
  then show ?case by simp
next
  case (Cons c cs)
  then show ?case
    using py_split_not_Nil [of sep cs] by (cases "py_split sep cs") auto
qed

lemma price_conversion_eq: "price_conversion t = filter is_digit (before_first_dot t)"
  by (simp add: price_conversion_def re_sub_non_digits_def before_first_dot_def hd_py_split)

text \<open>
  Claim C5. For every input string, \<open>price_conversion\<close> returns the part before the
  first dot with every character that is not a digit removed; on the example price it
  returns \<open>5990\<close>; and when the part before the first dot holds no digit, the result is
  the empty string.
\<close>

theorem price_conversion_spec:
  "price_conversion s = filter is_digit (before_first_dot s)
   \<and> price_conversion example_price = ''5990''
   \<and> ((\<forall>c \<in> set (before_first_dot s). \<not> is_digit c) \<longrightarrow> price_conversion s = '''')"
proof -
  have eq: "\<And>t. price_conversion t = filter is_digit (before_first_dot t)"
    by (rule price_conversion_eq)
  have ex: "price_conversion example_price = ''5990''"
    by (simp add: eq example_price_def before_first_dot_def is_digit_def)
  have emp: "(\<forall>c \<in> set (before_first_dot s). \<not> is_digit c) \<longrightarrow> price_conversion s = ''''"
    by (simp add: eq)
  from eq ex emp show ?thesis by blast
qed

theorem price_conversion_spec_witness:
  "price_conversion ''abc.12'' = ''''
   \<and> filter is_digit (before_first_dot ''abc.12'') = ''''"
proof -
  have h: "\<forall>c \<in> set (before_first_dot ''abc.12''). \<not> is_digit c"
    by (simp add: before_first_dot_def is_digit_def)
  from price_conversion_spec [of "''abc.12''"] h
  have a: "price_conversion ''abc.12'' = ''''"
    and b: "price_conversion ''abc.12'' = filter is_digit (before_first_dot ''abc.12'')"
    by blast+
  from a b show ?thesis by simp
qed

section \<open>Properties of the batch splitter\<close>

lemma py_slice_chunk:
  assumes "0 \<le> i" "0 < n"
  shows "py_slice lst i (i + n) = take (nat n) (drop (nat i) lst)"
  using assms by (auto simp: py_slice_def Let_def min_def max_def)

lemma range_up_length:
  "0 < step \<Longrightarrow> length (range_up i stop step) = nat (- ((i - stop) div step))"
proof (induction i stop step rule: range_up.induct)
  case (1 i stop step)
  show ?case
  proof (cases "i < stop")
    case True
    have "i + step - stop = (i - stop) + step" by simp
    then have d: "(i + step - stop) div step = (i - stop) div step + 1"
      using 1(2) by (metis div_add_self2 less_irrefl)
    have neg: "(i - stop) div step < 0"
      using True 1(2) by (simp add: div_neg_pos_less0)
    from 1 True d neg show ?thesis
      by (subst range_up.simps) (simp add: nat_diff_distrib Suc_nat_eq_nat_zadd1)
  next
    case False
    then have "0 \<le> (i - stop) div step" using 1(2) by (simp add: pos_imp_zdiv_nonneg_iff)
    with False show ?thesis by (subst range_up.simps) simp
  qed
qed

lemma range_up_nth:
  "0 < step \<Longrightarrow> k < length (range_up i stop step) \<Longrightarrow> range_up i stop step ! k = i + int k * step"
proof (induction i stop step arbitrary: k rule: range_up.induct)
  case (1 i stop step)
  show ?case
  proof (cases "i < stop")
    case True
    have eq: "range_up i stop step = i # range_up (i + step) stop step"
      using True 1(2) by (subst range_up.simps) simp
    show ?thesis
    proof (cases k)
      case 0
      then show ?thesis by (simp add: eq)
    next
      case (Suc j)
      with 1(3) eq have "j < length (range_up (i + step) stop step)" by simp
      with 1(1) [of j] True 1(2) have "range_up (i + step) stop step ! j = i + step + int j * step" by simp
      with Suc show ?thesis by (simp add: eq algebra_simps)
    qed
  next
    case False
    with 1(3) show ?thesis by (subst (asm) range_up.simps) simp
  qed
qed

lemma chunks_concat:
  "0 \<le> i \<Longrightarrow> 0 < n \<Longrightarrow>
   concat (map (\<lambda>i. py_slice lst i (i + n)) (range_up i (int (length lst)) n)) = drop (nat i) lst"
proof (induction i "int (length lst)" n rule: range_up.induct)
  case (1 i step)
  show ?case
  proof (cases "i < int (length lst)")
    case True
    have eq: "range_up i (int (length lst)) step = i # range_up (i + step) (int (length lst)) step"
      using True 1(3) by (subst range_up.simps) simp
    have "drop (nat (i + step)) lst = drop (nat step) (drop (nat i) lst)"
      using 1(2,3) by (simp add: nat_add_distrib add.commute)
    then have "take (nat step) (drop (nat i) lst) @ drop (nat (i + step)) lst = drop (nat i) lst"
      by (simp only: append_take_drop_id)
    moreover have "concat (map (\<lambda>i. py_slice lst i (i + step)) (range_up (i + step) (int (length lst)) step))
        = drop (nat (i + step)) lst"
      using 1 True by simp
    ultimately show ?thesis
      using 1(2,3) by (simp only: eq py_slice_chunk list.map concat.simps)
  next
    case False
    then show ?thesis by (subst range_up.simps) simp
  qed
qed

lemma ceil_div_bounds:
  fixes L n :: int
  assumes "0 < n"
  shows "(- ((- L) div n) - 1) * n < L" and "L \<le> - ((- L) div n) * n"
proof -
  define q r where "q = (- L) div n" and "r = (- L) mod n"
  have e: "- L = q * n + r" by (simp add: q_def r_def)
  have m: "0 \<le> r" "r < n" using assms by (simp_all add: r_def)
  have "(- q - 1) * n = - (q * n) - n" by (simp add: algebra_simps)
  with e m show "(- ((- L) div n) - 1) * n < L" unfolding q_def [symmetric] by linarith
  have "- q * n = - (q * n)" by simp
  with e m show "L \<le> - ((- L) div n) * n" unfolding q_def [symmetric] by linarith
qed

lemma divide_Inr:
  "0 < n \<Longrightarrow> divide lst n = Inr (map (\<lambda>i. py_slice lst i (i + n)) (range_up 0 (int (length lst)) n))"
  by (simp add: divide_def py_range_def)

text \<open>
  Claim C4. For a list of length \<open>L\<close> and a chunk size \<open>n > 0\<close>, \<open>divide\<close> returns
  \<open>\<lceil>L / n\<rceil>\<close> chunks; chunk number \<open>k\<close> is the \<open>n\<close> items that follow the first
  \<open>k * n\<close> items of the list, so the chunks are contiguous, disjoint and in order; every
  chunk but the last has exactly \<open>n\<close> items, the last has between one and \<open>n\<close>; and the
  chunks concatenated are the list.
\<close>

theorem divide_chunks:
  assumes "0 < n"
  shows "\<exists>chunks. divide lst n = Inr chunks
     \<and> int (length chunks) = \<lceil>real (length lst) / real_of_int n\<rceil>
     \<and> concat chunks = lst
     \<and> (\<forall>k < length chunks. chunks ! k = take (nat n) (drop (k * nat n) lst))
     \<and> (\<forall>k. Suc k < length chunks \<longrightarrow> length (chunks ! k) = nat n)
     \<and> (chunks \<noteq> [] \<longrightarrow> 0 < length (last chunks) \<and> length (last chunks) \<le> nat n)"
proof -
  define L where "L = int (length lst)"
  define idx where "idx = range_up 0 L n"
  define chunks where "chunks = map (\<lambda>i. py_slice lst i (i + n)) idx"
  define c where "c = - ((- L) div n)"
  have res: "divide lst n = Inr chunks"
    using assms by (simp add: divide_Inr chunks_def idx_def L_def)
  have len: "int (length chunks) = c"
  proof -
    have "(- L) div n \<le> 0" using assms by (simp add: L_def div_nonpos_pos_le0)
    then have "0 \<le> c" by (simp add: c_def)
    then show ?thesis
      using range_up_length [OF assms, of 0 L] by (simp add: chunks_def idx_def c_def)
  qed
  have ceil: "int (length chunks) = \<lceil>real (length lst) / real_of_int n\<rceil>"
  proof -
    have "\<lceil>real_of_int L / real_of_int n\<rceil> = c"
      unfolding c_def by (rule ceiling_divide_eq_div)
    then show ?thesis by (simp add: len L_def)
  qed
  have cat: "concat chunks = lst"
    using chunks_concat [of 0 n lst] assms by (simp add: chunks_def idx_def L_def)
  have nth: "chunks ! k = take (nat n) (drop (k * nat n) lst)" if "k < length chunks" for k
  proof -
    from that have k: "k < length idx" by (simp add: chunks_def)
    then have "idx ! k = int k * n"
      using range_up_nth [OF assms, of k 0 L] by (simp add: idx_def)
    moreover have "nat (int k * n) = k * nat n"
      using assms by (simp add: nat_mult_distrib)
    ultimately show ?thesis
      using k assms by (simp add: chunks_def py_slice_chunk)
  qed
  have below: "(c - 1) * n < L" using ceil_div_bounds(1) [OF assms, of L] by (simp add: c_def)
  have full: "length (chunks ! k) = nat n" if "Suc k < length chunks" for k
  proof -
    from that len have "int (Suc k) \<le> c - 1" by linarith
    then have "int (Suc k) * n \<le> (c - 1) * n" using assms by (simp add: mult_right_mono)
    with below have "int (Suc k) * n < L" by linarith
    then have "int (Suc k * nat n) < int (length lst)"
      using assms by (simp add: L_def algebra_simps)
    then have "Suc k * nat n < length lst" by linarith
    moreover from that have "k < length chunks" by simp
    ultimately show ?thesis by (simp add: nth)
  qed
  have lastc: "0 < length (last chunks) \<and> length (last chunks) \<le> nat n" if "chunks \<noteq> []"
  proof -
    from that have pos: "0 < length chunks" by simp
    then have l: "last chunks = chunks ! (length chunks - 1)" by (simp add: last_conv_nth)
    from pos len have "int (length chunks - 1) = c - 1" by linarith
    with below have "int (length chunks - 1) * n < L" by simp
    then have "int ((length chunks - 1) * nat n) < int (length lst)"
      using assms by (simp add: L_def)
    then have "(length chunks - 1) * nat n < length lst" by linarith
    with pos assms show ?thesis by (simp add: l nth)
  qed
  from res ceil cat nth full lastc show ?thesis by blast
qed

theorem divide_chunks_witness:
  "(0::int) < 2 \<and> divide [1, 2, 3, 4, 5 :: nat] 2 = Inr [[1, 2], [3, 4], [5]]"
proof -
  have h: "(0::int) < 2" by simp
  from divide_chunks [OF h, of "[1, 2, 3, 4, 5 :: nat]"]
  obtain chunks where d: "divide [1, 2, 3, 4, 5 :: nat] 2 = Inr chunks"
    and l: "int (length chunks) = \<lceil>real (length [1, 2, 3, 4, 5 :: nat]) / real_of_int 2\<rceil>"
    and n: "\<forall>k < length chunks. chunks ! k = take (nat 2) (drop (k * nat 2) [1, 2, 3, 4, 5 :: nat])"
    by blast
  have "\<lceil>(5::real) / 2\<rceil> = 3" by (simp add: ceiling_eq_iff)
  with l have l3: "length chunks = 3" by simp
  then obtain a b c where ch: "chunks = [a, b, c]"
    by (metis length_0_conv length_Suc_conv numeral_3_eq_3)
  from n l3 have "chunks ! 0 = [1, 2]" "chunks ! 1 = [3, 4]" "chunks ! 2 = [5]" by simp_all
  with ch have "chunks = [[1, 2], [3, 4], [5]]" by simp
  with d h show ?thesis by simp
qed

section \<open>Properties of the integer parse\<close>

lemma py_int_error:
  "py_int q = Inl e \<Longrightarrow>
   e = ValueError (InvalidLiteral q) \<or> (\<exists>n. int_max_str_digits < n \<and> e = ValueError (DigitLimit n))"
  by (auto simp: py_int_def long_from_string_def split: option.splits prod.splits if_splits)

lemma py_int_empty: "py_int [] = Inl (ValueError (InvalidLiteral []))"
  by (simp add: py_int_eval)

lemma is_digit_code: "is_digit c \<Longrightarrow> 48 \<le> (of_char c :: nat) \<and> (of_char c :: nat) \<le> 57"
  by (auto simp: is_digit_def)

lemma utf8_decode_digits:
  "\<forall>c \<in> set s. is_digit c \<Longrightarrow> utf8_decode (map of_char s) = Some (map of_char s)"
proof (induction s)
  case Nil
  then show ?case by simp
next
  case (Cons c s)
  then have "(of_char c :: nat) < 0x80" using is_digit_code [of c] by simp
  with Cons show ?case by simp
qed

lemma single_underscores_digits: "\<forall>c \<in> set t. ascii_digit c \<Longrightarrow> single_underscores t"
  by (induction t rule: single_underscores.induct) (auto simp: ascii_digit_def)

text \<open>
  On a string of ASCII digits only, \<open>py_int\<close> fails when the string is empty or longer
  than the limit, and nowhere else.
\<close>

lemma py_int_digits:
  assumes "\<forall>c \<in> set s. is_digit c"
  shows "py_int s =
     (if s = [] then Inl (ValueError (InvalidLiteral s))
      else if int_max_str_digits < length s then Inl (ValueError (DigitLimit (length s)))
      else Inr (int (digits_value (map of_char s))))"
proof (cases "s = []")
  case True
  then show ?thesis by (simp add: py_int_empty)
next
  case False
  define t :: "nat list" where "t = map of_char s"
  have d: "\<forall>c \<in> set t. ascii_digit c"
    using assms is_digit_code by (auto simp: t_def ascii_digit_def)
  from False have ne: "t \<noteq> []" by (simp add: t_def)
  have asc: "map to_ascii t = t"
    using d by (auto simp: to_ascii_def ascii_digit_def intro!: map_idI)
  from ne obtain a r where t: "t = a # r" by (cases t) auto
  with d have a: "ascii_digit a" by simp
  then have sp: "dropWhile ascii_space t = t"
    by (simp add: t ascii_space_def ascii_digit_def)
  from a have sg: "strip_sign t = (False, t)"
    by (simp add: t strip_sign_def ascii_digit_def)
  have tw: "takeWhile digit_or_underscore t = t"
    using d by (simp add: digit_or_underscore_def)
  have dw: "dropWhile digit_or_underscore t = []"
    using d by (simp add: digit_or_underscore_def)
  have fl: "filter ascii_digit t = t" using d by simp
  have "ascii_digit (last t)" using d ne by simp
  with a have v: "valid_run t"
    using single_underscores_digits [OF d]
    by (auto simp: valid_run_def t ascii_digit_def)
  have lf: "long_from_string s t =
      (if int_max_str_digits < length t then Inl (ValueError (DigitLimit (length t)))
       else Inr (int (digits_value t)))"
    by (simp add: long_from_string_def sp sg tw dw fl v)
  have "py_int s = long_from_string s (map to_ascii t)"
    by (simp only: py_int_def utf8_decode_digits [OF assms] option.case t_def)
  then have "py_int s = long_from_string s t" by (simp only: asc)
  with lf False show ?thesis by (simp add: t_def)
qed

text \<open>
  A no-break space before the digit is a blank to \<open>int\<close>, an Arabic-Indic digit is a
  digit, and 4301 digits are one too many.
\<close>

lemma py_int_no_break_space: "py_int [CHR 0xC2, CHR 0xA0, CHR ''5''] = Inr 5"
  by (simp add: py_int_eval)

lemma py_int_arabic_indic: "py_int [CHR ''1'', CHR 0xD9, CHR 0xA2] = Inr 12"
  by (simp add: py_int_eval)

lemma py_int_digit_limit:
  "py_int (replicate 4301 (CHR ''1'')) = Inl (ValueError (DigitLimit 4301))"
proof -
  have "\<forall>c \<in> set (replicate 4301 (CHR ''1'')). is_digit c" by (simp add: is_digit_def)
  from py_int_digits [OF this] show ?thesis by (simp add: int_max_str_digits_def)
qed

section \<open>The stock builder: its loop\<close>

lemma create_stocks_loop_acc:
  "create_stocks_loop ws ids acc =
     (case create_stocks_loop ws ids [] of
        (Inl e, i) \<Rightarrow> (Inl e, i)
      | (Inr s, i) \<Rightarrow> (Inr (acc @ s), i))"
proof (induction ws arbitrary: ids acc)
  case Nil
  then show ?case by simp
next
  case (Cons w ws)
  show ?case
  proof (cases "Kod w \<in> set ids")
    case False
    then show ?thesis using Cons.IH [of ids acc] by simp
  next
    case True
    show ?thesis
    proof (cases "stock_count (Kolichestvo w)")
      case (Inl e)
      with True show ?thesis by simp
    next
      case (Inr c)
      let ?r = "\<lparr>offer_id = Kod w, stock = c\<rparr>"
      have a: "create_stocks_loop (w # ws) ids acc = create_stocks_loop ws (remove1 (Kod w) ids) (acc @ [?r])"
        using True Inr by (simp add: list_remove_def)
      have b: "create_stocks_loop (w # ws) ids [] = create_stocks_loop ws (remove1 (Kod w) ids) [?r]"
        using True Inr by (simp add: list_remove_def)
      show ?thesis
        unfolding a b
        using Cons.IH [of "remove1 (Kod w) ids" "acc @ [?r]"] Cons.IH [of "remove1 (Kod w) ids" "[?r]"]
        by (auto split: prod.splits sum.splits)
    qed
  qed
qed

lemma create_stocks_loop_append:
  "create_stocks_loop (xs @ ys) ids acc =
     (case create_stocks_loop xs ids acc of
        (Inl e, i) \<Rightarrow> (Inl e, i)
      | (Inr s, i) \<Rightarrow> create_stocks_loop ys i s)"
  by (induction xs arbitrary: ids acc) (auto simp: list_remove_def split: sum.splits)

text \<open>The matched records removed exactly their own codes, one occurrence each.\<close>

lemma create_stocks_loop_mset:
  "create_stocks_loop ws ids [] = (Inr s, ids') \<Longrightarrow> mset ids = mset (map offer_id s) + mset ids'"
proof (induction ws arbitrary: ids s ids')
  case Nil
  then show ?case by simp
next
  case (Cons w ws)
  show ?case
  proof (cases "Kod w \<in> set ids")
    case False
    with Cons show ?thesis by simp
  next
    case True
    from Cons.prems True obtain c where c: "stock_count (Kolichestvo w) = Inr c"
      by (cases "stock_count (Kolichestvo w)") auto
    let ?r = "\<lparr>offer_id = Kod w, stock = c\<rparr>"
    from Cons.prems True c
    have "create_stocks_loop ws (remove1 (Kod w) ids) [?r] = (Inr s, ids')"
      by (simp add: list_remove_def)
    then obtain t where t: "create_stocks_loop ws (remove1 (Kod w) ids) [] = (Inr t, ids')"
      and s: "s = ?r # t"
      by (subst (asm) create_stocks_loop_acc) (auto split: prod.splits sum.splits)
    have 1: "mset (remove1 (Kod w) ids) = mset (map offer_id t) + mset ids'"
      by (rule Cons.IH [OF t])
    have 2: "mset ids = add_mset (Kod w) (mset (remove1 (Kod w) ids))"
      using True by simp
    have 3: "mset (map offer_id s) = add_mset (Kod w) (mset (map offer_id t))"
      by (simp add: s)
    show ?thesis
      by (subst 2) (simp only: 1 3 union_mset_add_mset_left)
  qed
qed

lemma create_stocks_loop_origin:
  "create_stocks_loop ws ids [] = (Inr s, ids') \<Longrightarrow> x \<in> set s \<Longrightarrow>
   \<exists>w \<in> set ws. Kod w \<in> set ids \<and> offer_id x = Kod w \<and> stock_count (Kolichestvo w) = Inr (stock x)"
proof (induction ws arbitrary: ids s ids')
  case Nil
  then show ?case by simp
next
  case (Cons w ws)
  show ?case
  proof (cases "Kod w \<in> set ids")
    case False
    with Cons.prems have "create_stocks_loop ws ids [] = (Inr s, ids')" by simp
    from Cons.IH [OF this Cons.prems(2)] show ?thesis by auto
  next
    case True
    from Cons.prems(1) True obtain c where c: "stock_count (Kolichestvo w) = Inr c"
      by (cases "stock_count (Kolichestvo w)") auto
    let ?r = "\<lparr>offer_id = Kod w, stock = c\<rparr>"
    from Cons.prems(1) True c
    have "create_stocks_loop ws (remove1 (Kod w) ids) [?r] = (Inr s, ids')"
      by (simp add: list_remove_def)
    then obtain t where t: "create_stocks_loop ws (remove1 (Kod w) ids) [] = (Inr t, ids')"
      and s: "s = ?r # t"
      by (subst (asm) create_stocks_loop_acc) (auto split: prod.splits sum.splits)
    show ?thesis
    proof (cases "x = ?r")
      case True
      with \<open>Kod w \<in> set ids\<close> c show ?thesis by auto
    next
      case False
      with Cons.prems(2) s have "x \<in> set t" by simp
      from Cons.IH [OF t this] obtain v where "v \<in> set ws" "Kod v \<in> set (remove1 (Kod w) ids)"
        "offer_id x = Kod v" "stock_count (Kolichestvo v) = Inr (stock x)" by blast
      moreover then have "Kod v \<in> set ids" by (meson notin_set_remove1)
      ultimately show ?thesis by auto
    qed
  qed
qed

lemma create_stocks_loop_distinct:
  "create_stocks_loop ws ids [] = (Inr s, ids') \<Longrightarrow> distinct ids \<Longrightarrow>
   ids' = filter (\<lambda>i. i \<notin> Kod ` set ws) ids"
proof (induction ws arbitrary: ids s ids')
  case Nil
  then show ?case by simp
next
  case (Cons w ws)
  show ?case
  proof (cases "Kod w \<in> set ids")
    case False
    with Cons.prems have "create_stocks_loop ws ids [] = (Inr s, ids')" by simp
    from Cons.IH [OF this Cons.prems(2)] have "ids' = filter (\<lambda>i. i \<notin> Kod ` set ws) ids" .
    moreover have "filter (\<lambda>i. i \<notin> Kod ` set (w # ws)) ids = filter (\<lambda>i. i \<notin> Kod ` set ws) ids"
      using False by (intro filter_cong) auto
    ultimately show ?thesis by simp
  next
    case True
    from Cons.prems(1) True obtain c where c: "stock_count (Kolichestvo w) = Inr c"
      by (cases "stock_count (Kolichestvo w)") auto
    let ?r = "\<lparr>offer_id = Kod w, stock = c\<rparr>"
    from Cons.prems(1) True c
    have "create_stocks_loop ws (remove1 (Kod w) ids) [?r] = (Inr s, ids')"
      by (simp add: list_remove_def)
    then obtain t where t: "create_stocks_loop ws (remove1 (Kod w) ids) [] = (Inr t, ids')"
      by (subst (asm) create_stocks_loop_acc) (auto split: prod.splits sum.splits)
    have r: "remove1 (Kod w) ids = filter (\<lambda>i. i \<noteq> Kod w) ids"
      using Cons.prems(2) by (simp add: distinct_remove1_removeAll removeAll_filter_not_eq) metis
    have "distinct (remove1 (Kod w) ids)" using Cons.prems(2) by simp
    from Cons.IH [OF t this]
    have "ids' = filter (\<lambda>i. i \<notin> Kod ` set ws) (filter (\<lambda>i. i \<noteq> Kod w) ids)"
      by (simp only: r)
    also have "\<dots> = filter (\<lambda>i. i \<notin> Kod ` set (w # ws)) ids"
      by (simp add: conj_commute)
    finally show ?thesis .
  qed
qed

lemma create_stocks_loop_no_match:
  "\<forall>w \<in> set ws. Kod w \<notin> set ids \<Longrightarrow> create_stocks_loop ws ids acc = (Inr acc, ids)"
  by (induction ws) auto

lemma create_stocks_loop_some_match:
  "create_stocks_loop ws ids [] = (Inr s, ids') \<Longrightarrow> \<exists>w \<in> set ws. Kod w \<in> set ids \<Longrightarrow> s \<noteq> []"
proof (induction ws)
  case Nil
  then show ?case by simp
next
  case (Cons w ws)
  show ?case
  proof (cases "Kod w \<in> set ids")
    case False
    with Cons show ?thesis by simp
  next
    case True
    from Cons.prems(1) True obtain c where c: "stock_count (Kolichestvo w) = Inr c"
      by (cases "stock_count (Kolichestvo w)") auto
    from Cons.prems(1) True c
    have "create_stocks_loop ws (remove1 (Kod w) ids) [\<lparr>offer_id = Kod w, stock = c\<rparr>] = (Inr s, ids')"
      by (simp add: list_remove_def)
    then show ?thesis
      by (subst (asm) create_stocks_loop_acc) (auto split: prod.splits sum.splits)
  qed
qed

lemma create_stocks_loop_error:
  "create_stocks_loop ws ids acc = (Inl e, ids') \<Longrightarrow>
   \<exists>w \<in> set ws. Kod w \<in> set ids \<and> stock_count (Kolichestvo w) = Inl e"
proof (induction ws arbitrary: ids acc)
  case Nil
  then show ?case by simp
next
  case (Cons w ws)
  show ?case
  proof (cases "Kod w \<in> set ids")
    case False
    with Cons.prems have "create_stocks_loop ws ids acc = (Inl e, ids')" by simp
    from Cons.IH [OF this] show ?thesis by auto
  next
    case True
    show ?thesis
    proof (cases "stock_count (Kolichestvo w)")
      case (Inl e')
      with Cons.prems True show ?thesis by simp
    next
      case (Inr c)
      with Cons.prems True
      have "create_stocks_loop ws (remove1 (Kod w) ids) (acc @ [\<lparr>offer_id = Kod w, stock = c\<rparr>]) = (Inl e, ids')"
        by (simp add: list_remove_def)
      from Cons.IH [OF this] obtain v where "v \<in> set ws" "Kod v \<in> set (remove1 (Kod w) ids)"
        "stock_count (Kolichestvo v) = Inl e" by blast
      moreover then have "Kod v \<in> set ids" by (meson notin_set_remove1)
      ultimately show ?thesis by auto
    qed
  qed
qed

lemma stock_count_error:
  "stock_count q = Inl e \<Longrightarrow> q \<noteq> ''>10'' \<and> q \<noteq> ''1'' \<and> py_int q = Inl e"
  by (auto simp: stock_count_def split: if_splits)

lemma create_stocks_Inr:
  "create_stocks ws ids = (Inr stocks, ids') \<longleftrightarrow>
   (\<exists>s. create_stocks_loop ws ids [] = (Inr s, ids')
        \<and> stocks = s @ map (\<lambda>i. \<lparr>offer_id = i, stock = 0\<rparr>) ids')"
  by (auto simp: create_stocks_def split: prod.splits sum.splits)

lemma create_stocks_Inl:
  "create_stocks ws ids = (Inl e, ids') \<longleftrightarrow> create_stocks_loop ws ids [] = (Inl e, ids')"
  by (auto simp: create_stocks_def split: prod.splits sum.splits)

lemma create_stocks_mset:
  assumes "create_stocks ws ids = (Inr stocks, ids')"
  shows "mset (map offer_id stocks) = mset ids"
proof -
  from assms obtain s where s: "create_stocks_loop ws ids [] = (Inr s, ids')"
    and st: "stocks = s @ map (\<lambda>i. \<lparr>offer_id = i, stock = 0\<rparr>) ids'"
    by (auto simp: create_stocks_Inr)
  have "map offer_id (map (\<lambda>i. \<lparr>offer_id = i, stock = 0\<rparr>) ids') = ids'"
    by (induction ids') auto
  with create_stocks_loop_mset [OF s] st show ?thesis by simp
qed

section \<open>The stock builder: coverage\<close>

lemma market_create_stocks_loop_link:
  "market_create_stocks_loop wh d ws ids (map (\<lambda>x. market_stock_of wh d (offer_id x) (stock x)) acc) =
     (case create_stocks_loop ws ids acc of
        (r, i) \<Rightarrow> (map_sum id (map (\<lambda>x. market_stock_of wh d (offer_id x) (stock x))) r, i))"
proof (induction ws arbitrary: ids acc)
  case Nil
  then show ?case by simp
next
  case (Cons w ws)
  show ?case
  proof (cases "Kod w \<in> set ids")
    case False
    then show ?thesis using Cons.IH [of ids acc] by simp
  next
    case True
    show ?thesis
    proof (cases "stock_count (Kolichestvo w)")
      case (Inl e)
      with True show ?thesis by simp
    next
      case (Inr c)
      with True show ?thesis
        using Cons.IH [of "remove1 (Kod w) ids" "acc @ [\<lparr>offer_id = Kod w, stock = c\<rparr>]"]
        by (simp add: list_remove_def)
    qed
  qed
qed

lemma market_create_stocks_link:
  "market_create_stocks ws ids wh d =
     (case create_stocks ws ids of
        (r, i) \<Rightarrow> (map_sum id (map (\<lambda>x. market_stock_of wh d (offer_id x) (stock x))) r, i))"
  using market_create_stocks_loop_link [of wh d ws ids "[]"]
  by (auto simp: market_create_stocks_def create_stocks_def split: prod.splits sum.splits)

lemma create_prices_loop_frame: "snd (create_prices_loop ws ids acc) = ids"
  by (induction ws arbitrary: acc) auto

lemma market_create_prices_loop_frame: "snd (market_create_prices_loop ws ids acc) = ids"
  by (induction ws arbitrary: acc) (auto split: sum.splits)

lemma create_prices_loop_eq:
  "fst (create_prices_loop ws ids acc) =
     acc @ map (\<lambda>w. \<lparr>auto_action_enabled = ''UNKNOWN'', currency_code = ''RUB'',
                     price_offer_id = Kod w, old_price = ''0'',
                     price = price_conversion (Tsena w)\<rparr>)
             (filter (\<lambda>w. Kod w \<in> set ids) ws)"
  by (induction ws arbitrary: acc) auto



section \<open>The stock builder: policy\<close>

text \<open>
  Claim C3. A supplier record whose code is in \<open>offer_ids\<close> when the loop reaches it gets
  the stock count 100 for the quantity \<open>>10\<close>, 0 for the quantity \<open>1\<close>, and otherwise the
  integer read from the quantity; its record stands in the output right after the
  records of the earlier matches.
\<close>

theorem create_stocks_policy:
  assumes "create_stocks_loop pre ids [] = (Inr acc, cur)"
    and "Kod w \<in> set cur"
    and "create_stocks (pre @ w # post) ids = (Inr stocks, ids')"
  shows "length acc < length stocks
     \<and> take (length acc) stocks = acc
     \<and> offer_id (stocks ! length acc) = Kod w
     \<and> (Kolichestvo w = ''>10'' \<longrightarrow> stock (stocks ! length acc) = 100)
     \<and> (Kolichestvo w = ''1'' \<longrightarrow> stock (stocks ! length acc) = 0)
     \<and> (Kolichestvo w \<noteq> ''>10'' \<and> Kolichestvo w \<noteq> ''1'' \<longrightarrow>
           py_int (Kolichestvo w) = Inr (stock (stocks ! length acc)))
     \<and> fst (market_create_stocks (pre @ w # post) ids wh d) =
           Inr (map (\<lambda>x. market_stock_of wh d (offer_id x) (stock x)) stocks)
     \<and> create_stocks [\<lparr>Kod = ''X'', Kolichestvo = ''5'', Tsena = ''100.00''\<rparr>] [''X'', ''Y'']
         = (Inr [\<lparr>offer_id = ''X'', stock = 5\<rparr>, \<lparr>offer_id = ''Y'', stock = 0\<rparr>], [''Y''])"
proof -
  from assms(3) obtain s where s: "create_stocks_loop (pre @ w # post) ids [] = (Inr s, ids')"
    and st: "stocks = s @ map (\<lambda>i. \<lparr>offer_id = i, stock = 0\<rparr>) ids'"
    by (auto simp: create_stocks_Inr)
  from s assms(1) have l: "create_stocks_loop (w # post) cur acc = (Inr s, ids')"
    by (simp add: create_stocks_loop_append)
  with assms(2) obtain c where c: "stock_count (Kolichestvo w) = Inr c"
    by (cases "stock_count (Kolichestvo w)") auto
  let ?r = "\<lparr>offer_id = Kod w, stock = c\<rparr>"
  from l assms(2) c
  have "create_stocks_loop post (remove1 (Kod w) cur) (acc @ [?r]) = (Inr s, ids')"
    by (simp add: list_remove_def)
  then obtain t where "s = (acc @ [?r]) @ t"
    by (subst (asm) create_stocks_loop_acc) (auto split: prod.splits sum.splits)
  with st have stocks: "stocks = acc @ ?r # (t @ map (\<lambda>i. \<lparr>offer_id = i, stock = 0\<rparr>) ids')"
    by simp
  then have n: "stocks ! length acc = ?r" by (simp add: nth_append)
  have 1: "length acc < length stocks" "take (length acc) stocks = acc"
    by (simp_all add: stocks)
  have 2: "offer_id (stocks ! length acc) = Kod w" by (simp add: n)
  have 3: "Kolichestvo w = ''>10'' \<longrightarrow> stock (stocks ! length acc) = 100"
    using c by (auto simp: n stock_count_def)
  have 4: "Kolichestvo w = ''1'' \<longrightarrow> stock (stocks ! length acc) = 0"
    using c by (auto simp: n stock_count_def)
  have 5: "Kolichestvo w \<noteq> ''>10'' \<and> Kolichestvo w \<noteq> ''1'' \<longrightarrow>
           py_int (Kolichestvo w) = Inr (stock (stocks ! length acc))"
    using c by (auto simp: n stock_count_def)
  have 6: "fst (market_create_stocks (pre @ w # post) ids wh d) =
           Inr (map (\<lambda>x. market_stock_of wh d (offer_id x) (stock x)) stocks)"
    by (simp add: market_create_stocks_link assms(3))
  have 7: "create_stocks [\<lparr>Kod = ''X'', Kolichestvo = ''5'', Tsena = ''100.00''\<rparr>] [''X'', ''Y'']
         = (Inr [\<lparr>offer_id = ''X'', stock = 5\<rparr>, \<lparr>offer_id = ''Y'', stock = 0\<rparr>], [''Y''])"
    by (simp add: create_stocks_def stock_count_def list_remove_def py_int_eval)
  from 1 2 3 4 5 6 7 show ?thesis by blast
qed

theorem create_stocks_policy_witness:
  "create_stocks_loop [\<lparr>Kod = ''Z'', Kolichestvo = ''>10'', Tsena = ''''\<rparr>] [''X'', ''Z'', ''Y''] []
     = (Inr [\<lparr>offer_id = ''Z'', stock = 100\<rparr>], [''X'', ''Y''])
   \<and> Kod \<lparr>Kod = ''X'', Kolichestvo = ''-12'', Tsena = ''''\<rparr> \<in> set [''X'', ''Y'']
   \<and> create_stocks ([\<lparr>Kod = ''Z'', Kolichestvo = ''>10'', Tsena = ''''\<rparr>]
                     @ \<lparr>Kod = ''X'', Kolichestvo = ''-12'', Tsena = ''''\<rparr> # []) [''X'', ''Z'', ''Y'']
     = (Inr [\<lparr>offer_id = ''Z'', stock = 100\<rparr>, \<lparr>offer_id = ''X'', stock = - 12\<rparr>,
             \<lparr>offer_id = ''Y'', stock = 0\<rparr>], [''Y''])
   \<and> py_int ''-12'' = Inr (- 12)"
proof -
  let ?z = "\<lparr>Kod = ''Z'', Kolichestvo = ''>10'', Tsena = ''''\<rparr>"
  let ?x = "\<lparr>Kod = ''X'', Kolichestvo = ''-12'', Tsena = ''''\<rparr>"
  let ?out = "[\<lparr>offer_id = ''Z'', stock = 100\<rparr>, \<lparr>offer_id = ''X'', stock = - 12\<rparr>,
             \<lparr>offer_id = ''Y'', stock = 0\<rparr>]"
  have h1: "create_stocks_loop [?z] [''X'', ''Z'', ''Y''] []
     = (Inr [\<lparr>offer_id = ''Z'', stock = 100\<rparr>], [''X'', ''Y''])"
    by (simp add: stock_count_def list_remove_def)
  have h2: "Kod ?x \<in> set [''X'', ''Y'']" by simp
  have h3: "create_stocks ([?z] @ ?x # []) [''X'', ''Z'', ''Y''] = (Inr ?out, [''Y''])"
    by (simp add: create_stocks_def stock_count_def list_remove_def py_int_eval)
  from create_stocks_policy [OF h1 h2 h3]
  have "Kolichestvo ?x \<noteq> ''>10'' \<and> Kolichestvo ?x \<noteq> ''1'' \<longrightarrow>
           py_int (Kolichestvo ?x) = Inr (stock (?out ! length [\<lparr>offer_id = ''Z'', stock = 100\<rparr>]))"
    by blast
  then have "py_int ''-12'' = Inr (- 12)" by simp
  with h1 h2 h3 show ?thesis by blast
qed

text \<open>
  A code of the given list that no earlier supplier record carries is still in the
  list when the loop reaches a record: the first record of each listed code is matched.
\<close>

lemma create_stocks_first_match:
  assumes "create_stocks_loop pre ids [] = (Inr acc, cur)"
    and "c \<in> set ids" and "c \<notin> Kod ` set pre"
  shows "c \<in> set cur"
proof -
  have "c \<notin> set (map offer_id acc)"
    using create_stocks_loop_origin [OF assms(1)] assms(3) by auto
  moreover have "c \<in># mset ids" using assms(2) by simp
  ultimately show ?thesis
    using create_stocks_loop_mset [OF assms(1)] by (metis in_multiset_in_set union_iff)
qed

section \<open>Running a builder again, and the caller's list\<close>

lemma create_stocks_length:
  assumes "create_stocks ws ids = (Inr stocks, ids')"
  shows "length stocks = length ids"
  using create_stocks_mset [OF assms] by (metis length_map size_mset)

lemma create_stocks_shrinks:
  assumes "create_stocks ws ids = (Inr stocks, ids')" and "\<exists>w \<in> set ws. Kod w \<in> set ids"
  shows "length ids' < length ids"
proof -
  from assms(1) obtain s where s: "create_stocks_loop ws ids [] = (Inr s, ids')"
    by (auto simp: create_stocks_Inr)
  from create_stocks_loop_some_match [OF s assms(2)] have "s \<noteq> []" .
  moreover have "length ids = length s + length ids'"
    using create_stocks_loop_mset [OF s] by (metis length_map size_mset size_union)
  ultimately show ?thesis by (cases s) auto
qed







text \<open>
  The second of two calls on one list object reads the list as the first call has
  left it, which holds the same ids only when no supplier code was among them.
\<close>

lemma create_stocks_twice_same_list:
  assumes "fst (twice create_stocks ws ids) = (Inr stocks, again)"
  shows "again = Inr stocks \<longleftrightarrow> (\<forall>w \<in> set ws. Kod w \<notin> set ids)"
proof -
  from assms obtain ids' where r: "create_stocks ws ids = (Inr stocks, ids')"
    and a: "fst (create_stocks ws ids') = again"
    by (cases "create_stocks ws ids"; cases "create_stocks ws (snd (create_stocks ws ids))")
       (auto simp: twice_def)
  show ?thesis
  proof
    assume "again = Inr stocks"
    with a obtain ids'' where "create_stocks ws ids' = (Inr stocks, ids'')"
      by (cases "create_stocks ws ids'") auto
    then have "length stocks = length ids'" by (rule create_stocks_length)
    moreover from r have "length stocks = length ids" by (rule create_stocks_length)
    ultimately have "\<not> length ids' < length ids" by simp
    with create_stocks_shrinks [OF r] show "\<forall>w \<in> set ws. Kod w \<notin> set ids" by blast
  next
    assume none: "\<forall>w \<in> set ws. Kod w \<notin> set ids"
    then have "create_stocks_loop ws ids [] = (Inr [], ids)"
      by (rule create_stocks_loop_no_match)
    with r have "ids' = ids" by (simp add: create_stocks_def)
    with r a show "again = Inr stocks" by simp
  qed
qed



section \<open>The price builders\<close>

lemma price_conversion_digits: "\<forall>c \<in> set (price_conversion t). is_digit c"
  by (simp add: price_conversion_eq)

text \<open>
  The converted price is a string of ASCII digits, so \<open>int\<close> fails on it only when it is
  empty or longer than the limit.
\<close>

lemma py_int_price_conversion:
  "py_int (price_conversion t) =
     (if price_conversion t = [] then Inl (ValueError (InvalidLiteral []))
      else if int_max_str_digits < length (price_conversion t)
      then Inl (ValueError (DigitLimit (length (price_conversion t))))
      else Inr (int (digits_value (map of_char (price_conversion t)))))"
  using py_int_digits [OF price_conversion_digits, of t] by simp

lemma market_create_prices_loop_error:
  "market_create_prices_loop ws ids acc = (Inl e, i) \<Longrightarrow>
   \<exists>w \<in> set ws. Kod w \<in> set ids \<and> py_int (price_conversion (Tsena w)) = Inl e"
proof (induction ws arbitrary: acc)
  case Nil
  then show ?case by simp
next
  case (Cons v ws)
  show ?case
  proof (cases "Kod v \<in> set ids")
    case False
    with Cons show ?thesis by simp
  next
    case True
    show ?thesis
    proof (cases "py_int (price_conversion (Tsena v))")
      case (Inl e')
      with Cons.prems True show ?thesis by simp
    next
      case (Inr n)
      with Cons True show ?thesis by simp
    qed
  qed
qed

lemma market_create_prices_loop_raises:
  "w \<in> set ws \<Longrightarrow> Kod w \<in> set ids \<Longrightarrow> price_conversion (Tsena w) = [] \<Longrightarrow>
   \<exists>v. fst (market_create_prices_loop ws ids acc) = Inl (ValueError v)"
proof (induction ws arbitrary: acc)
  case Nil
  then show ?case by simp
next
  case (Cons u ws)
  show ?case
  proof (cases "Kod u \<in> set ids")
    case False
    with Cons show ?thesis by auto
  next
    case True
    show ?thesis
    proof (cases "py_int (price_conversion (Tsena u))")
      case (Inl e')
      with py_int_error [OF Inl] True show ?thesis by auto
    next
      case (Inr n)
      then have "price_conversion (Tsena u) \<noteq> []" by (auto simp: py_int_empty)
      with Cons.prems have "w \<in> set ws" by auto
      with Cons Inr True show ?thesis by simp
    qed
  qed
qed

lemma market_create_prices_loop_raises_empty:
  "w \<in> set ws \<Longrightarrow> Kod w \<in> set ids \<Longrightarrow> price_conversion (Tsena w) = [] \<Longrightarrow>
   \<forall>u \<in> set ws. Kod u \<in> set ids \<longrightarrow> length (price_conversion (Tsena u)) \<le> int_max_str_digits \<Longrightarrow>
   fst (market_create_prices_loop ws ids acc) = Inl (ValueError (InvalidLiteral []))"
proof (induction ws arbitrary: acc)
  case Nil
  then show ?case by simp
next
  case (Cons u ws)
  show ?case
  proof (cases "Kod u \<in> set ids")
    case False
    with Cons show ?thesis by auto
  next
    case True
    with Cons.prems(4) have le: "\<not> int_max_str_digits < length (price_conversion (Tsena u))"
      by simp
    show ?thesis
    proof (cases "price_conversion (Tsena u) = []")
      case e: True
      with True show ?thesis by (simp add: py_int_empty)
    next
      case ne: False
      with Cons.prems have "w \<in> set ws" by auto
      moreover from ne le obtain n where "py_int (price_conversion (Tsena u)) = Inr n"
        by (simp add: py_int_price_conversion)
      ultimately show ?thesis using Cons True by simp
    qed
  qed
qed

text \<open>
  Claim C10. A supplier record whose code is among the offer ids and whose price has
  no digit before the first dot is converted to the empty string. The Market variant
  of \<open>create_prices\<close> then raises a parse error: that of \<open>int('')\<close>, unless an earlier
  matched record has a price of more digits than \<open>int\<close> converts. The Ozon variant
  returns a price record whose price is the empty string.
\<close>

theorem create_prices_divergence:
  assumes "w \<in> set ws" and "Kod w \<in> set ids"
    and "\<forall>c \<in> set (before_first_dot (Tsena w)). \<not> is_digit c"
  shows "price_conversion (Tsena w) = ''''
     \<and> (\<exists>v. fst (market_create_prices ws ids) = Inl (ValueError v))
     \<and> ((\<forall>u \<in> set ws. Kod u \<in> set ids \<longrightarrow>
            length (price_conversion (Tsena u)) \<le> int_max_str_digits)
         \<longrightarrow> fst (market_create_prices ws ids) = Inl (ValueError (InvalidLiteral '''')))
     \<and> fst (market_create_prices [w] ids) = Inl (ValueError (InvalidLiteral ''''))
     \<and> \<lparr>auto_action_enabled = ''UNKNOWN'', currency_code = ''RUB'', price_offer_id = Kod w,
         old_price = ''0'', price = ''''\<rparr> \<in> set (fst (create_prices ws ids))"
proof -
  have e: "price_conversion (Tsena w) = ''''"
    using assms(3) by (simp add: price_conversion_eq)
  have m: "\<exists>v. fst (market_create_prices ws ids) = Inl (ValueError v)"
    unfolding market_create_prices_def
    by (rule market_create_prices_loop_raises [OF assms(1,2) e])
  have x: "fst (market_create_prices ws ids) = Inl (ValueError (InvalidLiteral ''''))"
    if "\<forall>u \<in> set ws. Kod u \<in> set ids \<longrightarrow>
            length (price_conversion (Tsena u)) \<le> int_max_str_digits"
    unfolding market_create_prices_def
    by (rule market_create_prices_loop_raises_empty [OF assms(1,2) e that])
  have o: "fst (market_create_prices [w] ids) = Inl (ValueError (InvalidLiteral ''''))"
    using assms(2) e by (simp add: market_create_prices_def py_int_empty)
  have "\<lparr>auto_action_enabled = ''UNKNOWN'', currency_code = ''RUB'', price_offer_id = Kod w,
         old_price = ''0'', price = price_conversion (Tsena w)\<rparr> \<in> set (fst (create_prices ws ids))"
    using assms(1,2) by (auto simp: create_prices_def create_prices_loop_eq)
  with e m x o show ?thesis by simp
qed

theorem create_prices_divergence_witness:
  "\<lparr>Kod = ''A'', Kolichestvo = ''3'', Tsena = ''n/a''\<rparr> \<in> set [\<lparr>Kod = ''A'', Kolichestvo = ''3'', Tsena = ''n/a''\<rparr>]
   \<and> Kod \<lparr>Kod = ''A'', Kolichestvo = ''3'', Tsena = ''n/a''\<rparr> \<in> set [''A'']
   \<and> filter is_digit (before_first_dot (Tsena \<lparr>Kod = ''A'', Kolichestvo = ''3'', Tsena = ''n/a''\<rparr>)) = ''''
   \<and> fst (market_create_prices [\<lparr>Kod = ''A'', Kolichestvo = ''3'', Tsena = ''n/a''\<rparr>] [''A''])
       = Inl (ValueError (InvalidLiteral ''''))
   \<and> \<lparr>auto_action_enabled = ''UNKNOWN'', currency_code = ''RUB'', price_offer_id = ''A'',
         old_price = ''0'', price = ''''\<rparr>
       \<in> set (fst (create_prices [\<lparr>Kod = ''A'', Kolichestvo = ''3'', Tsena = ''n/a''\<rparr>] [''A'']))"
proof -
  let ?w = "\<lparr>Kod = ''A'', Kolichestvo = ''3'', Tsena = ''n/a''\<rparr>"
  have h1: "?w \<in> set [?w]" by simp
  have h2: "Kod ?w \<in> set [''A'']" by simp
  have h3: "\<forall>c \<in> set (before_first_dot (Tsena ?w)). \<not> is_digit c"
    by (simp add: before_first_dot_def is_digit_def)
  from create_prices_divergence [OF h1 h2 h3] h1 h2 h3 show ?thesis by simp
qed

section \<open>What the builders raise\<close>

text \<open>
  Claim C7, amended. \<open>create_stocks\<close> (both variants) raises only the parse error of a
  matched record whose quantity is neither \<open>>10\<close> nor \<open>1\<close> nor a string that \<open>int\<close>
  converts, and such a record makes it raise; the Ozon \<open>create_prices\<close> always returns;
  the Market \<open>create_prices\<close> raises only the parse error of a matched record whose
  converted price is empty or has more digits than \<open>int\<close> converts, and returns when
  there is no such record; \<open>divide\<close> returns for every chunk size \<open>n > 0\<close>.
\<close>

theorem builders_raise_only_on_parse:
  "(fst (create_stocks ws ids) = Inl e \<longrightarrow>
      (\<exists>w \<in> set ws. Kod w \<in> set ids \<and> Kolichestvo w \<noteq> ''>10'' \<and> Kolichestvo w \<noteq> ''1''
         \<and> py_int (Kolichestvo w) = Inl e
         \<and> (e = ValueError (InvalidLiteral (Kolichestvo w))
              \<or> (\<exists>k. int_max_str_digits < k \<and> e = ValueError (DigitLimit k)))))
   \<and> ((\<forall>w \<in> set ws. Kod w \<in> set ids \<longrightarrow>
          Kolichestvo w = ''>10'' \<or> Kolichestvo w = ''1'' \<or> (\<exists>k. py_int (Kolichestvo w) = Inr k))
        \<longrightarrow> (\<exists>stocks ids'. create_stocks ws ids = (Inr stocks, ids')))
   \<and> (create_stocks_loop pre ids [] = (Inr acc, cur) \<and> Kod v \<in> set cur
        \<and> Kolichestvo v \<noteq> ''>10'' \<and> Kolichestvo v \<noteq> ''1'' \<and> py_int (Kolichestvo v) = Inl e'
        \<longrightarrow> fst (create_stocks (pre @ v # post) ids) = Inl e')
   \<and> (fst (market_create_stocks ws ids wh d) = Inl e \<longleftrightarrow> fst (create_stocks ws ids) = Inl e)
   \<and> (\<exists>prices. create_prices ws ids = (prices, ids))
   \<and> (fst (market_create_prices ws ids) = Inl e \<longrightarrow>
        (\<exists>w \<in> set ws. Kod w \<in> set ids
           \<and> (price_conversion (Tsena w) = '''' \<and> e = ValueError (InvalidLiteral '''')
                \<or> int_max_str_digits < length (price_conversion (Tsena w))
                  \<and> e = ValueError (DigitLimit (length (price_conversion (Tsena w)))))))
   \<and> ((\<forall>w \<in> set ws. Kod w \<in> set ids \<longrightarrow>
          price_conversion (Tsena w) \<noteq> ''''
          \<and> length (price_conversion (Tsena w)) \<le> int_max_str_digits)
        \<longrightarrow> (\<exists>prices. market_create_prices ws ids = (Inr prices, ids)))
   \<and> (0 < n \<longrightarrow> (\<exists>chunks. divide lst n = Inr chunks))"
proof -
  have 1: "\<exists>w \<in> set ws. Kod w \<in> set ids \<and> Kolichestvo w \<noteq> ''>10'' \<and> Kolichestvo w \<noteq> ''1''
         \<and> py_int (Kolichestvo w) = Inl e
         \<and> (e = ValueError (InvalidLiteral (Kolichestvo w))
              \<or> (\<exists>k. int_max_str_digits < k \<and> e = ValueError (DigitLimit k)))"
    if "fst (create_stocks ws ids) = Inl e" for e
  proof -
    from that obtain i where "create_stocks ws ids = (Inl e, i)"
      by (cases "create_stocks ws ids") auto
    then have "create_stocks_loop ws ids [] = (Inl e, i)" by (simp add: create_stocks_Inl)
    from create_stocks_loop_error [OF this] obtain w where
      "w \<in> set ws" "Kod w \<in> set ids" "stock_count (Kolichestvo w) = Inl e" by blast
    with stock_count_error [of "Kolichestvo w" e] py_int_error [of "Kolichestvo w" e]
    show ?thesis by blast
  qed
  have 2: "\<exists>stocks ids'. create_stocks ws ids = (Inr stocks, ids')"
    if ok: "\<forall>w \<in> set ws. Kod w \<in> set ids \<longrightarrow>
          Kolichestvo w = ''>10'' \<or> Kolichestvo w = ''1'' \<or> (\<exists>k. py_int (Kolichestvo w) = Inr k)"
  proof (cases "fst (create_stocks ws ids)")
    case (Inl e)
    from 1 [OF this] ok show ?thesis by force
  next
    case (Inr stocks)
    then show ?thesis by (cases "create_stocks ws ids") auto
  qed
  have 3: "fst (create_stocks (pre @ v # post) ids) = Inl e'"
    if "create_stocks_loop pre ids [] = (Inr acc, cur) \<and> Kod v \<in> set cur
        \<and> Kolichestvo v \<noteq> ''>10'' \<and> Kolichestvo v \<noteq> ''1'' \<and> py_int (Kolichestvo v) = Inl e'"
  proof -
    from that have "stock_count (Kolichestvo v) = Inl e'" by (simp add: stock_count_def)
    with that have "create_stocks_loop (pre @ v # post) ids [] = (Inl e', cur)"
      by (simp add: create_stocks_loop_append)
    then show ?thesis by (simp add: create_stocks_def)
  qed
  have 4: "fst (market_create_stocks ws ids wh d) = Inl e \<longleftrightarrow> fst (create_stocks ws ids) = Inl e"
    by (cases "create_stocks ws ids"; cases "fst (create_stocks ws ids)")
       (auto simp: market_create_stocks_link)
  have 5: "\<exists>prices. create_prices ws ids = (prices, ids)"
    using create_prices_loop_frame [of ws ids "[]"]
    by (cases "create_prices ws ids") (simp add: create_prices_def)
  have 6: "\<exists>w \<in> set ws. Kod w \<in> set ids
           \<and> (price_conversion (Tsena w) = '''' \<and> e = ValueError (InvalidLiteral '''')
                \<or> int_max_str_digits < length (price_conversion (Tsena w))
                  \<and> e = ValueError (DigitLimit (length (price_conversion (Tsena w)))))"
    if "fst (market_create_prices ws ids) = Inl e" for e
  proof -
    from that obtain i where "market_create_prices_loop ws ids [] = (Inl e, i)"
      by (cases "market_create_prices ws ids") (auto simp: market_create_prices_def)
    from market_create_prices_loop_error [OF this] obtain w where
      w: "w \<in> set ws" "Kod w \<in> set ids" "py_int (price_conversion (Tsena w)) = Inl e" by blast
    from w(3) have "price_conversion (Tsena w) = '''' \<and> e = ValueError (InvalidLiteral '''')
        \<or> int_max_str_digits < length (price_conversion (Tsena w))
          \<and> e = ValueError (DigitLimit (length (price_conversion (Tsena w))))"
      by (auto simp: py_int_price_conversion split: if_splits)
    with w(1,2) show ?thesis by blast
  qed
  have 8: "\<exists>prices. market_create_prices ws ids = (Inr prices, ids)"
    if ok: "\<forall>w \<in> set ws. Kod w \<in> set ids \<longrightarrow>
          price_conversion (Tsena w) \<noteq> ''''
          \<and> length (price_conversion (Tsena w)) \<le> int_max_str_digits"
  proof (cases "fst (market_create_prices ws ids)")
    case (Inl e)
    from 6 [OF this] ok show ?thesis by force
  next
    case (Inr prices)
    moreover have "snd (market_create_prices ws ids) = ids"
      by (simp add: market_create_prices_def market_create_prices_loop_frame)
    ultimately show ?thesis by (cases "market_create_prices ws ids") auto
  qed
  have 7: "0 < n \<longrightarrow> (\<exists>chunks. divide lst n = Inr chunks)"
    by (simp add: divide_def py_range_def)
  from 1 2 3 4 5 6 7 8 show ?thesis by blast
qed

theorem builders_raise_only_on_parse_witness:
  "fst (create_stocks [\<lparr>Kod = ''A'', Kolichestvo = ''many'', Tsena = ''''\<rparr>] [''A''])
     = Inl (ValueError (InvalidLiteral ''many''))
   \<and> py_int ''many'' = Inl (ValueError (InvalidLiteral ''many''))
   \<and> (\<exists>stocks ids'. create_stocks [\<lparr>Kod = ''A'', Kolichestvo = '' +1_0 '', Tsena = ''''\<rparr>] [''A'']
         = (Inr stocks, ids'))
   \<and> (0::int) < 2 \<and> (\<exists>chunks. divide [1, 2, 3 :: nat] 2 = Inr chunks)"
proof -
  let ?bad = "\<lparr>Kod = ''A'', Kolichestvo = ''many'', Tsena = ''''\<rparr>"
  let ?ok = "\<lparr>Kod = ''A'', Kolichestvo = '' +1_0 '', Tsena = ''''\<rparr>"
  have pre: "create_stocks_loop [] [''A''] [] = (Inr [], [''A'']) \<and> Kod ?bad \<in> set [''A'']
        \<and> Kolichestvo ?bad \<noteq> ''>10'' \<and> Kolichestvo ?bad \<noteq> ''1''
        \<and> py_int (Kolichestvo ?bad) = Inl (ValueError (InvalidLiteral ''many''))"
    by (simp add: py_int_eval)
  have ok: "\<forall>w \<in> set [?ok]. Kod w \<in> set [''A''] \<longrightarrow>
          Kolichestvo w = ''>10'' \<or> Kolichestvo w = ''1'' \<or> (\<exists>k. py_int (Kolichestvo w) = Inr k)"
    by (simp add: py_int_eval)
  have n: "(0::int) < 2" by simp
  from builders_raise_only_on_parse [where pre = "[]" and ids = "[''A'']" and acc = "[]"
      and cur = "[''A'']" and v = ?bad and e' = "ValueError (InvalidLiteral ''many'')"
      and post = "[]"] pre
  have a: "fst (create_stocks ([] @ ?bad # []) [''A'']) = Inl (ValueError (InvalidLiteral ''many''))"
    by blast
  from builders_raise_only_on_parse [where ws = "[?ok]" and ids = "[''A'']"] ok
  have b: "\<exists>stocks ids'. create_stocks [?ok] [''A''] = (Inr stocks, ids')" by blast
  from builders_raise_only_on_parse [where n = 2 and lst = "[1, 2, 3 :: nat]"] n
  have c: "\<exists>chunks. divide [1, 2, 3 :: nat] 2 = Inr chunks" by blast
  from a b c n pre show ?thesis by simp
qed

theorem market_create_prices_raise_counterexample:
  "market_create_prices [\<lparr>Kod = ''A'', Kolichestvo = ''>10'', Tsena = ''call us''\<rparr>] [''A'']
     = (Inl (ValueError (InvalidLiteral '''')), [''A''])
   \<and> stock_count (Kolichestvo \<lparr>Kod = ''A'', Kolichestvo = ''>10'', Tsena = ''call us''\<rparr>) = Inr 100"
  by (simp add: market_create_prices_def price_conversion_eq before_first_dot_def is_digit_def
      py_int_empty stock_count_def)

section \<open>The orchestrator's price pass\<close>

lemma divide_Nil: "divide [] 900 = Inr []"
  by (simp add: divide_def py_range_def range_up.simps)

text \<open>
  Whenever the offer ids are pairwise different, the price pass of \<open>main_body\<close> finds
  no supplier code in the list the stock pass has left, and no price is sent.
\<close>

lemma main_body_no_prices:
  assumes "distinct ids" and "main_body ws ids = Inr (stock_batches, price_batches)"
  shows "price_batches = []"
proof -
  from assms(2) obtain stocks ids' where s: "create_stocks ws ids = (Inr stocks, ids')"
    by (cases "create_stocks ws ids"; cases "fst (create_stocks ws ids)")
       (auto simp: main_body_def)
  then obtain m where "create_stocks_loop ws ids [] = (Inr m, ids')"
    by (auto simp: create_stocks_Inr)
  from create_stocks_loop_distinct [OF this assms(1)]
  have "filter (\<lambda>w. Kod w \<in> set ids') ws = []"
    by (auto simp: filter_empty_conv)
  then have "fst (create_prices ws ids') = []"
    by (simp add: create_prices_def create_prices_loop_eq)
  moreover have "snd (create_prices ws ids') = ids'"
    by (simp add: create_prices_def create_prices_loop_frame)
  ultimately have "create_prices ws ids' = ([], ids')"
    by (cases "create_prices ws ids'") simp
  with assms(2) s show ?thesis
    by (auto simp: main_body_def divide_Nil split: sum.splits)
qed

text \<open>
  Claim C2. Offer ids X and Y and one supplier record for X (quantity 5, price 100.00
  with the currency text): \<open>main_body\<close> sends the stocks X 5 and Y 0 and then no price
  at all, because its price pass reads the list from which the stock pass has removed
  X. \<open>create_prices\<close> on the original ids, and \<open>upload_prices\<close>, which resolves the ids
  afresh, both give the price record of X with the price 100.
\<close>

theorem main_price_pass_example:
  "main_body
     [\<lparr>Kod = ''X'', Kolichestvo = ''5'',
       Tsena = ''100.00 '' @ [CHR 0xD1, CHR 0x80, CHR 0xD1, CHR 0x83, CHR 0xD0, CHR 0xB1, CHR ''.'']\<rparr>]
     [''X'', ''Y'']
     = Inr ([[\<lparr>offer_id = ''X'', stock = 5\<rparr>, \<lparr>offer_id = ''Y'', stock = 0\<rparr>]], [])
   \<and> fst (create_prices
     [\<lparr>Kod = ''X'', Kolichestvo = ''5'',
       Tsena = ''100.00 '' @ [CHR 0xD1, CHR 0x80, CHR 0xD1, CHR 0x83, CHR 0xD0, CHR 0xB1, CHR ''.'']\<rparr>]
     [''X'', ''Y''])
     = [\<lparr>auto_action_enabled = ''UNKNOWN'', currency_code = ''RUB'', price_offer_id = ''X'',
         old_price = ''0'', price = ''100''\<rparr>]
   \<and> upload_prices
     [\<lparr>Kod = ''X'', Kolichestvo = ''5'',
       Tsena = ''100.00 '' @ [CHR 0xD1, CHR 0x80, CHR 0xD1, CHR 0x83, CHR 0xD0, CHR 0xB1, CHR ''.'']\<rparr>]
     (\<lambda>k cursor. Inr \<lparr>items = [\<lparr>product_offer_id = ''X''\<rparr>, \<lparr>product_offer_id = ''Y''\<rparr>],
                       total_p = 2, last_id = ''''\<rparr>)
     = Some (Inr [\<lparr>auto_action_enabled = ''UNKNOWN'', currency_code = ''RUB'',
                   price_offer_id = ''X'', old_price = ''0'', price = ''100''\<rparr>])"
proof -
  let ?w = "\<lparr>Kod = ''X'', Kolichestvo = ''5'',
       Tsena = ''100.00 '' @ [CHR 0xD1, CHR 0x80, CHR 0xD1, CHR 0x83, CHR 0xD0, CHR 0xB1, CHR ''.'']\<rparr>"
  let ?p = "\<lparr>auto_action_enabled = ''UNKNOWN'', currency_code = ''RUB'', price_offer_id = ''X'',
         old_price = ''0'', price = ''100''\<rparr>"
  have s: "create_stocks [?w] [''X'', ''Y'']
      = (Inr [\<lparr>offer_id = ''X'', stock = 5\<rparr>, \<lparr>offer_id = ''Y'', stock = 0\<rparr>], [''Y''])"
    by (simp add: create_stocks_def stock_count_def list_remove_def py_int_eval)
  have d: "divide [\<lparr>offer_id = ''X'', stock = 5\<rparr>, \<lparr>offer_id = ''Y'', stock = 0\<rparr>] 100
      = Inr [[\<lparr>offer_id = ''X'', stock = 5\<rparr>, \<lparr>offer_id = ''Y'', stock = 0\<rparr>]]"
    by (simp add: divide_def py_range_def range_up.simps py_slice_def)
  have p0: "create_prices [?w] [''Y''] = ([], [''Y''])"
    by (simp add: create_prices_def)
  have 1: "main_body [?w] [''X'', ''Y'']
     = Inr ([[\<lparr>offer_id = ''X'', stock = 5\<rparr>, \<lparr>offer_id = ''Y'', stock = 0\<rparr>]], [])"
    by (simp only: main_body_def s d p0 divide_Nil prod.case sum.case)
  have c: "price_conversion (Tsena ?w) = ''100''"
    by (simp add: price_conversion_eq before_first_dot_def is_digit_def)
  have p: "create_prices [?w] [''X'', ''Y''] = ([?p], [''X'', ''Y''])"
    using c by (simp add: create_prices_def)
  have g: "get_offer_ids (\<lambda>k cursor. Inr \<lparr>items = [\<lparr>product_offer_id = ''X''\<rparr>, \<lparr>product_offer_id = ''Y''\<rparr>],
                       total_p = 2, last_id = ''''\<rparr>) = Some (Inr [''X'', ''Y''])"
    by (simp add: get_offer_ids_def get_offer_ids_loop.simps)
  have d1: "divide [?p] 1000 = Inr [[?p]]"
    by (simp add: divide_def py_range_def range_up.simps py_slice_def)
  have 3: "upload_prices [?w] (\<lambda>k cursor. Inr \<lparr>items = [\<lparr>product_offer_id = ''X''\<rparr>, \<lparr>product_offer_id = ''Y''\<rparr>],
                       total_p = 2, last_id = ''''\<rparr>) = Some (Inr [?p])"
    by (simp only: upload_prices_def g p d1 option.case sum.case prod.case)
  have 2: "fst (create_prices [?w] [''X'', ''Y'']) = [?p]"
    by (simp only: p fst_conv)
  from 1 2 3 show ?thesis by (intro conjI)
qed

section \<open>The offer resolver: its loops\<close>

lemma get_offer_ids_loop_pages:
  "serves prov last_id k c (ps @ [p]) \<Longrightarrow> short_of_total (length acc) ps \<Longrightarrow>
   total_p p = int (length acc + length (concat (map items (ps @ [p])))) \<Longrightarrow>
   get_offer_ids_loop prov k c acc = Some (Inr (acc @ concat (map items (ps @ [p]))))"
proof (induction ps arbitrary: k c acc)
  case Nil
  then show ?case by (subst get_offer_ids_loop.simps) simp
next
  case (Cons q ps)
  from Cons.prems have q: "prov k c = Inr q"
    and s: "serves prov last_id (Suc k) (last_id q) (ps @ [p])"
    and ne: "total_p q \<noteq> int (length (acc @ items q))"
    and sh: "short_of_total (length (acc @ items q)) ps"
    and t: "total_p p = int (length (acc @ items q) + length (concat (map items (ps @ [p]))))"
    by simp_all
  from Cons.IH [OF s sh t] q ne show ?case
    by (subst get_offer_ids_loop.simps) simp
qed

lemma market_get_offer_ids_loop_pages:
  "serves prov next_token k c (ps @ [p]) \<Longrightarrow> list_all has_next ps \<Longrightarrow> \<not> has_next p \<Longrightarrow>
   market_get_offer_ids_loop prov k c acc =
     Some (Inr (acc @ concat (map offerMappingEntries (ps @ [p]))))"
proof (induction ps arbitrary: k c acc)
  case Nil
  then show ?case
    by (subst market_get_offer_ids_loop.simps) (auto simp: has_next_def split: option.splits)
next
  case (Cons q ps)
  from Cons.prems have q: "prov k c = Inr q"
    and s: "serves prov next_token (Suc k) (next_token q) (ps @ [p])"
    and hn: "has_next q" and rest: "list_all has_next ps"
    by simp_all
  from hn obtain t where t: "nextPageToken q = Some t" "t \<noteq> []" "next_token q = t"
    by (auto simp: has_next_def next_token_def split: option.splits)
  from Cons.IH [OF s rest Cons.prems(3), of "acc @ offerMappingEntries q"] q t show ?case
    by (subst market_get_offer_ids_loop.simps) simp
qed

lemma get_offer_ids_loop_only_pages:
  assumes "get_offer_ids_loop prov k c acc = Some (Inr r)"
  shows "\<exists>ps p. serves prov last_id k c (ps @ [p]) \<and> short_of_total (length acc) ps
      \<and> total_p p = int (length acc + length (concat (map items (ps @ [p]))))
      \<and> r = acc @ concat (map items (ps @ [p]))"
proof -
  have "\<forall>r. y = Inr r \<longrightarrow>
     (\<exists>ps p. serves prov last_id k c (ps @ [p]) \<and> short_of_total (length acc) ps
      \<and> total_p p = int (length acc + length (concat (map items (ps @ [p]))))
      \<and> r = acc @ concat (map items (ps @ [p])))"
    if "get_offer_ids_loop prov k c acc = Some y" for y
    using that
  proof (rule get_offer_ids_loop.raw_induct [rotated, where P = "\<lambda>prov k c acc y. \<forall>r. y = Inr r \<longrightarrow>
     (\<exists>ps p. serves prov last_id k c (ps @ [p]) \<and> short_of_total (length acc) ps
      \<and> total_p p = int (length acc + length (concat (map items (ps @ [p]))))
      \<and> r = acc @ concat (map items (ps @ [p])))"], goal_cases)
    case (1 loop prov k c acc y)
    show ?case
    proof (intro allI impI)
      fix r assume y: "y = Inr r"
      show "\<exists>ps p. serves prov last_id k c (ps @ [p]) \<and> short_of_total (length acc) ps
        \<and> total_p p = int (length acc + length (concat (map items (ps @ [p]))))
        \<and> r = acc @ concat (map items (ps @ [p]))"
      proof (cases "prov k c")
        case (Inl e)
        with 1(2) y show ?thesis by simp
      next
        case (Inr q)
        show ?thesis
        proof (cases "total_p q = int (length (acc @ items q))")
          case True
          with 1(2) y Inr have "r = acc @ items q" by simp
          with True Inr have "serves prov last_id k c ([] @ [q]) \<and> short_of_total (length acc) []
              \<and> total_p q = int (length acc + length (concat (map items ([] @ [q]))))
              \<and> r = acc @ concat (map items ([] @ [q]))" by simp
          then show ?thesis by blast
        next
          case False
          with 1(2) Inr have "loop prov (Suc k) (last_id q) (acc @ items q) = Some y" by simp
          from 1(1) [OF this] y obtain ps p where
            "serves prov last_id (Suc k) (last_id q) (ps @ [p])"
            "short_of_total (length (acc @ items q)) ps"
            "total_p p = int (length (acc @ items q) + length (concat (map items (ps @ [p]))))"
            "r = (acc @ items q) @ concat (map items (ps @ [p]))" by blast
          with False Inr have "serves prov last_id k c ((q # ps) @ [p])
              \<and> short_of_total (length acc) (q # ps)
              \<and> total_p p = int (length acc + length (concat (map items ((q # ps) @ [p]))))
              \<and> r = acc @ concat (map items ((q # ps) @ [p]))" by simp
          then show ?thesis by blast
        qed
      qed
    qed
  qed
  from this [OF assms] show ?thesis by simp
qed

lemma market_get_offer_ids_loop_only_pages:
  assumes "market_get_offer_ids_loop prov k c acc = Some (Inr r)"
  shows "\<exists>ps p. serves prov next_token k c (ps @ [p]) \<and> list_all has_next ps \<and> \<not> has_next p
      \<and> r = acc @ concat (map offerMappingEntries (ps @ [p]))"
proof -
  have "\<forall>r. y = Inr r \<longrightarrow>
     (\<exists>ps p. serves prov next_token k c (ps @ [p]) \<and> list_all has_next ps \<and> \<not> has_next p
      \<and> r = acc @ concat (map offerMappingEntries (ps @ [p])))"
    if "market_get_offer_ids_loop prov k c acc = Some y" for y
    using that
  proof (rule market_get_offer_ids_loop.raw_induct [rotated, where P = "\<lambda>prov k c acc y. \<forall>r. y = Inr r \<longrightarrow>
     (\<exists>ps p. serves prov next_token k c (ps @ [p]) \<and> list_all has_next ps \<and> \<not> has_next p
      \<and> r = acc @ concat (map offerMappingEntries (ps @ [p])))"], goal_cases)
    case (1 loop prov k c acc y)
    show ?case
    proof (intro allI impI)
      fix r assume y: "y = Inr r"
      show "\<exists>ps p. serves prov next_token k c (ps @ [p]) \<and> list_all has_next ps \<and> \<not> has_next p
        \<and> r = acc @ concat (map offerMappingEntries (ps @ [p]))"
      proof (cases "prov k c")
        case (Inl e)
        with 1(2) y show ?thesis by simp
      next
        case (Inr q)
        show ?thesis
        proof (cases "has_next q")
          case False
          with 1(2) y Inr have "r = acc @ offerMappingEntries q"
            by (auto simp: has_next_def split: option.splits)
          with False Inr have "serves prov next_token k c ([] @ [q]) \<and> list_all has_next []
              \<and> \<not> has_next q \<and> r = acc @ concat (map offerMappingEntries ([] @ [q]))" by simp
          then show ?thesis by blast
        next
          case True
          then obtain t where t: "nextPageToken q = Some t" "t \<noteq> []" "next_token q = t"
            by (auto simp: has_next_def next_token_def split: option.splits)
          with 1(2) Inr
          have "loop prov (Suc k) (next_token q) (acc @ offerMappingEntries q) = Some y"
            by simp
          from 1(1) [OF this] y obtain ps p where
            "serves prov next_token (Suc k) (next_token q) (ps @ [p])" "list_all has_next ps"
            "\<not> has_next p"
            "r = (acc @ offerMappingEntries q) @ concat (map offerMappingEntries (ps @ [p]))"
            by blast
          with True Inr have "serves prov next_token k c ((q # ps) @ [p])
              \<and> list_all has_next (q # ps) \<and> \<not> has_next p
              \<and> r = acc @ concat (map offerMappingEntries ((q # ps) @ [p]))" by simp
          then show ?thesis by blast
        qed
      qed
    qed
  qed
  from this [OF assms] show ?thesis by simp
qed

lemma get_offer_ids_loop_stuck:
  "get_offer_ids_loop (\<lambda>k cursor. Inr \<lparr>items = [], total_p = 1, last_id = ''''\<rparr>) k c [] = None"
proof -
  let ?stuck = "\<lambda>(k::nat) (cursor::string). Inr \<lparr>items = [], total_p = 1, last_id = ''''\<rparr>
                  :: py_error + ozon_page"
  have inv: "\<not> (prov = ?stuck \<and> acc = [])"
    if "get_offer_ids_loop prov k c acc = Some y" for prov k c acc y
    using that
  proof (rule get_offer_ids_loop.raw_induct [rotated, where P = "\<lambda>prov k c acc y.
      \<not> (prov = (\<lambda>(k::nat) (cursor::string). Inr \<lparr>items = [], total_p = 1, last_id = ''''\<rparr>)
         \<and> acc = [])"], goal_cases)
    case (1 loop prov k c acc y)
    show ?case
    proof
      assume a: "prov = ?stuck \<and> acc = []"
      with 1(2) have "loop prov (Suc k) '''' [] = Some y" by simp
      from 1(1) [OF this] a show False by simp
    qed
  qed
  show ?thesis
  proof (cases "get_offer_ids_loop ?stuck k c []")
    case None
    then show ?thesis .
  next
    case (Some y)
    from inv [OF this] show ?thesis by simp
  qed
qed

section \<open>The offer resolver: pages and termination\<close>

text \<open>
  Claim C6, amended. \<open>get_offer_ids\<close> makes its first request with the empty cursor and
  every later one with the cursor that the page before names, and gathers the items of
  the pages in the order received; what it returns is one offer id per item gathered,
  in that order. The Market variant returns at the first page whose next-page token is
  absent or empty. The Ozon variant returns at the first page after which the number
  of items gathered equals the total that the page declares, and at no other page.
\<close>

theorem get_offer_ids_pages:
  "(serves prov last_id 0 '''' (ps @ [p]) \<and> short_of_total 0 ps
      \<and> total_p p = int (length (concat (map items (ps @ [p]))))
     \<longrightarrow> get_offer_ids prov
           = Some (Inr (map product_offer_id (concat (map items (ps @ [p]))))))
   \<and> (get_offer_ids prov = Some (Inr ids)
     \<longrightarrow> (\<exists>ps p. serves prov last_id 0 '''' (ps @ [p]) \<and> short_of_total 0 ps
            \<and> total_p p = int (length (concat (map items (ps @ [p]))))
            \<and> ids = map product_offer_id (concat (map items (ps @ [p])))))
   \<and> (serves mprov next_token 0 '''' (qs @ [q]) \<and> list_all has_next qs \<and> \<not> has_next q
     \<longrightarrow> market_get_offer_ids mprov
           = Some (Inr (map shopSku (concat (map offerMappingEntries (qs @ [q]))))))
   \<and> (market_get_offer_ids mprov = Some (Inr mids)
     \<longrightarrow> (\<exists>qs q. serves mprov next_token 0 '''' (qs @ [q]) \<and> list_all has_next qs
            \<and> \<not> has_next q
            \<and> mids = map shopSku (concat (map offerMappingEntries (qs @ [q])))))"
proof -
  have 1: "get_offer_ids prov
           = Some (Inr (map product_offer_id (concat (map items (ps @ [p])))))"
    if "serves prov last_id 0 '''' (ps @ [p]) \<and> short_of_total 0 ps
      \<and> total_p p = int (length (concat (map items (ps @ [p]))))"
    using that get_offer_ids_loop_pages [of prov 0 "''''" ps p "[]"]
    by (simp add: get_offer_ids_def)
  have 2: "\<exists>ps p. serves prov last_id 0 '''' (ps @ [p]) \<and> short_of_total 0 ps
            \<and> total_p p = int (length (concat (map items (ps @ [p]))))
            \<and> ids = map product_offer_id (concat (map items (ps @ [p])))"
    if g: "get_offer_ids prov = Some (Inr ids)"
  proof -
    from g obtain r where r: "get_offer_ids_loop prov 0 '''' [] = Some (Inr r)"
      and ids: "ids = map product_offer_id r"
      by (auto simp: get_offer_ids_def split: option.splits sum.splits)
    from get_offer_ids_loop_only_pages [OF r] obtain ps p where
      "serves prov last_id 0 '''' (ps @ [p])" "short_of_total 0 ps"
      "total_p p = int (length (concat (map items (ps @ [p]))))"
      "r = concat (map items (ps @ [p]))" by auto
    with ids show ?thesis by (intro exI [of _ ps] exI [of _ p]) simp
  qed
  have 3: "market_get_offer_ids mprov
           = Some (Inr (map shopSku (concat (map offerMappingEntries (qs @ [q])))))"
    if "serves mprov next_token 0 '''' (qs @ [q]) \<and> list_all has_next qs \<and> \<not> has_next q"
    using that market_get_offer_ids_loop_pages [of mprov 0 "''''" qs q "[]"]
    by (simp add: market_get_offer_ids_def)
  have 4: "\<exists>qs q. serves mprov next_token 0 '''' (qs @ [q]) \<and> list_all has_next qs
            \<and> \<not> has_next q
            \<and> mids = map shopSku (concat (map offerMappingEntries (qs @ [q])))"
    if g: "market_get_offer_ids mprov = Some (Inr mids)"
  proof -
    from g obtain r where r: "market_get_offer_ids_loop mprov 0 '''' [] = Some (Inr r)"
      and mids: "mids = map shopSku r"
      by (auto simp: market_get_offer_ids_def split: option.splits sum.splits)
    from market_get_offer_ids_loop_only_pages [OF r] obtain qs q where
      "serves mprov next_token 0 '''' (qs @ [q])" "list_all has_next qs" "\<not> has_next q"
      "r = concat (map offerMappingEntries (qs @ [q]))" by auto
    with mids show ?thesis by (intro exI [of _ qs] exI [of _ q]) simp
  qed
  from 1 2 3 4 show ?thesis by blast
qed

theorem get_offer_ids_pages_witness:
  "get_offer_ids
     (\<lambda>k cursor.
        if k = 0 \<and> cursor = '''' then
          Inr \<lparr>items = [\<lparr>product_offer_id = ''X''\<rparr>], total_p = 3, last_id = ''a''\<rparr>
        else if k = 1 \<and> cursor = ''a'' then
          Inr \<lparr>items = [\<lparr>product_offer_id = ''Y''\<rparr>, \<lparr>product_offer_id = ''Z''\<rparr>],
               total_p = 3, last_id = ''b''\<rparr>
        else Inl (HTTPError 404))
     = Some (Inr [''X'', ''Y'', ''Z''])
   \<and> market_get_offer_ids
     (\<lambda>k page.
        if k = 0 \<and> page = '''' then
          Inr \<lparr>offerMappingEntries = [\<lparr>shopSku = ''X''\<rparr>], nextPageToken = Some ''t1''\<rparr>
        else if k = 1 \<and> page = ''t1'' then
          Inr \<lparr>offerMappingEntries = [\<lparr>shopSku = ''Y''\<rparr>], nextPageToken = None\<rparr>
        else Inl (HTTPError 404))
     = Some (Inr [''X'', ''Y''])"
proof -
  let ?p1 = "\<lparr>items = [\<lparr>product_offer_id = ''X''\<rparr>], total_p = 3, last_id = ''a''\<rparr>"
  let ?p2 = "\<lparr>items = [\<lparr>product_offer_id = ''Y''\<rparr>, \<lparr>product_offer_id = ''Z''\<rparr>],
               total_p = 3, last_id = ''b''\<rparr>"
  let ?prov = "\<lambda>(k::nat) cursor.
        if k = 0 \<and> cursor = '''' then Inr ?p1
        else if k = 1 \<and> cursor = ''a'' then Inr ?p2
        else Inl (HTTPError 404)"
  let ?q1 = "\<lparr>offerMappingEntries = [\<lparr>shopSku = ''X''\<rparr>], nextPageToken = Some ''t1''\<rparr>"
  let ?q2 = "\<lparr>offerMappingEntries = [\<lparr>shopSku = ''Y''\<rparr>], nextPageToken = None\<rparr>"
  let ?mprov = "\<lambda>(k::nat) page.
        if k = 0 \<and> page = '''' then Inr ?q1
        else if k = 1 \<and> page = ''t1'' then Inr ?q2
        else Inl (HTTPError 404)"
  have h: "serves ?prov last_id 0 '''' ([?p1] @ [?p2]) \<and> short_of_total 0 [?p1]
      \<and> total_p ?p2 = int (length (concat (map items ([?p1] @ [?p2]))))"
    by simp
  have m: "serves ?mprov next_token 0 '''' ([?q1] @ [?q2]) \<and> list_all has_next [?q1]
      \<and> \<not> has_next ?q2"
    by (simp add: has_next_def next_token_def)
  from get_offer_ids_pages [where prov = ?prov and ps = "[?p1]" and p = ?p2] h
  have a: "get_offer_ids ?prov
      = Some (Inr (map product_offer_id (concat (map items ([?p1] @ [?p2])))))"
    by blast
  from get_offer_ids_pages [where mprov = ?mprov and qs = "[?q1]" and q = ?q2] m
  have b: "market_get_offer_ids ?mprov
      = Some (Inr (map shopSku (concat (map offerMappingEntries ([?q1] @ [?q2])))))"
    by blast
  from a b show ?thesis by simp
qed

theorem get_offer_ids_stuck_counterexample:
  "get_offer_ids (\<lambda>k cursor. Inr \<lparr>items = [], total_p = 1, last_id = ''''\<rparr>) = None"
  by (simp add: get_offer_ids_def get_offer_ids_loop_stuck)

end
